theory Spec2Isabelle
  imports Complex_Main "HOL-Library.Sublist"
begin

section \<open>JavaScript built-ins used by the worker\<close>

text \<open>
  Strings are \<^typ>\<open>string\<close> (lists of 8-bit characters). The numbers of a request
  (\<open>max_containers\<close>, \<open>timeout\<close>) and the clock readings are integers, as the
  request documents them (a count of sandboxes, a number of seconds). A request body that
  parses is an object of its declared interface, with any of its fields missing.
\<close>

text \<open>
  \<open>Array.prototype.slice(start, end)\<close>: a negative index counts from the end, both
  indices are clamped to the array, and an empty range gives the empty array.
\<close>

definition slice :: "'a list \<Rightarrow> int \<Rightarrow> int \<Rightarrow> 'a list" where
  "slice array start end =
     (let len = int (length array);
          k = (if start < 0 then max (len + start) 0 else min start len);
          final = (if end < 0 then max (len + end) 0 else min end len)
      in take (nat (final - k)) (drop (nat k) array))"

text \<open>\<open>Array.prototype.join(sep)\<close> on an array of strings.\<close>

fun join :: "string \<Rightarrow> string list \<Rightarrow> string" where
  "join sep [] = []"
| "join sep [x] = x"
| "join sep (x # y # ys) = x @ sep @ join sep (y # ys)"

text \<open>\<open>String.prototype.includes(t)\<close>: \<open>t\<close> occurs in \<open>s\<close> at some position.\<close>

fun includes_str :: "string \<Rightarrow> string \<Rightarrow> bool" where
  "includes_str [] t = prefix t []"
| "includes_str (c # cs) t = (prefix t (c # cs) \<or> includes_str cs t)"

text \<open>
  The characters the regular expression atom \<open>.\<close> does not match (no \<open>s\<close> flag): the
  line terminators. Of LF, CR, U+2028 and U+2029 the first two are 8-bit characters.
\<close>

definition line_terminator :: "char \<Rightarrow> bool" where
  "line_terminator c = (c = CHR 0x0A \<or> c = CHR 0x0D)"

text \<open>
  \<open>s.match(/M(.*)M/)\<close> for a literal marker \<open>M\<close>, returning capture group 1 or
  \<open>None\<close> for \<open>null\<close>. The engine tries the start positions from the left
  (\<open>regex_match\<close>). At a start position (\<open>match_at\<close>) the marker must be there; then
  the greedy \<open>.*\<close> takes every character up to the next line terminator and gives them
  back one at a time (\<open>backtrack\<close>) until the closing marker follows.
\<close>

fun backtrack :: "string \<Rightarrow> string \<Rightarrow> nat \<Rightarrow> string option" where
  "backtrack M rest 0 = (if prefix M rest then Some [] else None)"
| "backtrack M rest (Suc k) =
     (if prefix M (drop (Suc k) rest) then Some (take (Suc k) rest)
      else backtrack M rest k)"

definition match_at :: "string \<Rightarrow> string \<Rightarrow> string option" where
  "match_at M s =
     (if prefix M s
      then (let rest = drop (length M) s
            in backtrack M rest (length (takeWhile (\<lambda>c. \<not> line_terminator c) rest)))
      else None)"

fun regex_match :: "string \<Rightarrow> string \<Rightarrow> string option" where
  "regex_match M [] = match_at M []"
| "regex_match M (c # cs) =
     (case match_at M (c # cs) of
        Some g \<Rightarrow> Some g
      | None \<Rightarrow> regex_match M cs)"

text \<open>
  Truthiness of an optional string, and \<open>v || d\<close> for an optional number and an
  optional string (\<open>0\<close>, the empty string and a missing value give the default).
\<close>

definition truthy :: "string option \<Rightarrow> bool" where
  "truthy v = (case v of None \<Rightarrow> False | Some s \<Rightarrow> s \<noteq> [])"

definition or_default :: "int option \<Rightarrow> int \<Rightarrow> int" where
  "or_default v d = (case v of None \<Rightarrow> d | Some n \<Rightarrow> if n = 0 then d else n)"

definition or_empty :: "string option \<Rightarrow> string" where
  "or_empty v = (case v of None \<Rightarrow> [] | Some s \<Rightarrow> s)"

section \<open>Chunking\<close>

text \<open>
  \<open>chunk(array, size)\<close>: the loop \<open>for (let i = 0; i < array.length; i += size)\<close>
  pushes \<open>array.slice(i, i + size)\<close>. With a size below 1 the loop does not leave a
  non-empty array, so the loop is a partial function and \<open>None\<close> is "does not return".
\<close>

partial_function (option) chunk_loop ::
  "'a list \<Rightarrow> int \<Rightarrow> int \<Rightarrow> 'a list list \<Rightarrow> 'a list list option" where
  "chunk_loop array sz i chunks =
     (if i < int (length array)
      then chunk_loop array sz (i + sz) (chunks @ [slice array i (i + sz)])
      else Some chunks)"

declare chunk_loop.simps [code]

definition chunk :: "'a list \<Rightarrow> int \<Rightarrow> 'a list list option" where
  "chunk array sz = chunk_loop array sz 0 []"

text \<open>
  The number of passes the loop makes from index \<open>i\<close> over \<open>n\<close> elements in steps of
  \<open>sz\<close>: the ceiling of \<open>(n - i) / sz\<close>, and none when \<open>i\<close> is past the end.
\<close>

definition rounds :: "nat \<Rightarrow> int \<Rightarrow> int \<Rightarrow> nat" where
  "rounds n sz i = nat (- ((i - int n) div sz))"

section \<open>Data model\<close>

text \<open>
  What the session runtime hands back from \<open>runCode\<close> (interface \<open>SandboxResult\<close>;
  its \<open>results\<close> field is never read and is left out).
\<close>

record SandboxLogs =
  stdout :: "string list option"
  stderr :: "string list option"

record SandboxResult =
  logs :: "SandboxLogs option"
  error :: "string option"

text \<open>
  Modelled from the spec: the interfaces \<open>ExecuteRequest\<close>, \<open>ExecuteResponse\<close> and
  \<open>ExecuteBatchResponse\<close> of \<open>types.ts\<close>, which is not among the sources. The
  fields are those of the spec's ExecutionRequest, ExecutionOutcome and
  BatchExecutionOutcome under the names the handlers' object literals use; a field an
  object literal leaves out is \<open>None\<close>.
\<close>

record ExecuteRequest =
  function_id :: "string option"
  code :: "string option"
  function_name :: "string option"
  args :: "string option"
  kwargs :: "string option"
  timeout :: "int option"

record ExecuteResponse =
  success :: bool
  result :: "string option"
  stdout :: "string option"
  stderr :: "string option"
  error :: "string option"
  execution_time_ms :: "int option"
  sandbox_id :: "string option"
  started_at :: "string option"
  completed_at :: "string option"

record ExecuteBatchResponse =
  results :: "ExecuteResponse list"
  total_execution_time_ms :: int
  batch_count :: nat
  max_containers :: int

record ExecuteBatchRequest =
  function_id :: "string option"
  code :: "string option"
  function_name :: "string option"
  items :: "string list option"
  max_containers :: "int option"
  timeout :: "int option"

text \<open>An HTTP response: the status and the object that is serialised into the body.\<close>

datatype response_body = Single ExecuteResponse | Batch ExecuteBatchResponse

record http_response =
  status :: nat
  body :: response_body

text \<open>
  A value thrown by an awaited call: an \<open>Error\<close> with its message, or anything else
  (\<open>error instanceof Error ? error.message : ...\<close>).
\<close>

datatype thrown = Error string | NonError

definition message_or :: "thrown \<Rightarrow> string \<Rightarrow> string" where
  "message_or e d = (case e of Error m \<Rightarrow> m | NonError \<Rightarrow> d)"

text \<open>
  The calls a handler issues to its collaborators, in the order one item issues them:
  \<open>createCodeContext\<close> on a sandbox, \<open>runCode\<close> (sandbox, code, context, timeout in
  milliseconds), \<open>destroy\<close> on a sandbox, and \<open>console.error\<close>.
\<close>

datatype event =
  CreateCodeContext string
| RunCode string string string int
| Destroy string
| ConsoleError string

text \<open>
  The sandboxes a trace creates a code context on, runs code on and destroys, in the
  order of the trace.
\<close>

fun created_ids :: "event list \<Rightarrow> string list" where
  "created_ids [] = []"
| "created_ids (CreateCodeContext s # es) = s # created_ids es"
| "created_ids (e # es) = created_ids es"

fun run_ids :: "event list \<Rightarrow> string list" where
  "run_ids [] = []"
| "run_ids (RunCode s script ctx timeoutMs # es) = s # run_ids es"
| "run_ids (e # es) = run_ids es"

fun destroyed_ids :: "event list \<Rightarrow> string list" where
  "destroyed_ids [] = []"
| "destroyed_ids (Destroy s # es) = s # destroyed_ids es"
| "destroyed_ids (e # es) = destroyed_ids es"

text \<open>
  What the platform answers during one execution: the clock readings at entry and at
  completion, the value of \<open>crypto.randomUUID()\<close>, and the session runtime's answer to
  each call (\<open>Inl\<close>: the awaited call rejects). \<open>getSandbox\<close> only builds a stub and
  is not an entry here.
\<close>

record call_env =
  startedAt_now :: string
  startTime_now :: int
  completedAt_now :: string
  endTime_now :: int
  randomUUID :: string
  createCodeContext :: "string \<Rightarrow> thrown + string"
  runCode :: "string \<Rightarrow> string \<Rightarrow> string \<Rightarrow> int \<Rightarrow> thrown + SandboxResult"
  destroy :: "string \<Rightarrow> thrown option"

text \<open>
  For a batch: the handler's own two clock readings and the platform's answers to the
  k-th call of \<open>executeItem\<close>, counted in the order the calls are made.
\<close>

record batch_env =
  batch_startTime :: int
  batch_endTime :: int
  call :: "nat \<Rightarrow> call_env"

section \<open>Protocol\<close>

definition FLARE_ERROR :: string where
  "FLARE_ERROR = ''__FLARE_ERROR__''"

definition FLARE_RESULT :: string where
  "FLARE_RESULT = ''__FLARE_RESULT__''"

text \<open>\<open>result.logs?.stdout?.join("\n") || ""\<close> and the same for \<open>stderr\<close>.\<close>

definition joined :: "string list option \<Rightarrow> string" where
  "joined ls = (case ls of None \<Rightarrow> [] | Some xs \<Rightarrow> join [CHR 0x0A] xs)"

definition stdout_text :: "SandboxResult \<Rightarrow> string" where
  "stdout_text r = joined (Option.bind (logs r) SandboxLogs.stdout)"

definition stderr_text :: "SandboxResult \<Rightarrow> string" where
  "stderr_text r = joined (Option.bind (logs r) SandboxLogs.stderr)"

text \<open>
  A well-formed sentinel, in the spec's words: somewhere in the text the marker, a payload
  and the marker again, the payload within one line.
\<close>

definition has_sentinel :: "string \<Rightarrow> string \<Rightarrow> bool" where
  "has_sentinel M s =
     (\<exists>pre g post. s = pre @ M @ g @ M @ post \<and> (\<forall>c \<in> set g. \<not> line_terminator c))"

text \<open>
  The script handed to \<open>runCode\<close>: the template literal of \<open>executeItem\<close> with the
  user code, the item and the function name spliced in. \<open>nl\<close> is the line feed.
\<close>

definition nl :: string where
  "nl = [CHR 0x0A]"

definition dq :: string where
  "dq = [CHR 0x22]"

definition item_script :: "string \<Rightarrow> string \<Rightarrow> string \<Rightarrow> string" where
  "item_script userCode functionName itemHex = concat
     [nl, ''import cloudpickle'', nl, ''import sys'', nl, ''import traceback'', nl, nl,
      ''# Load user code (define the function)'', nl, userCode, nl, nl,
      ''try:'', nl,
      ''    # Deserialize input item'', nl,
      ''    item = cloudpickle.loads(bytes.fromhex('', dq, itemHex, dq, ''))'', nl, nl,
      ''    # Execute function with single item'', nl,
      ''    result = '', functionName, ''(item)'', nl, nl,
      ''    # Serialize and print result with markers'', nl,
      ''    result_hex = cloudpickle.dumps(result).hex()'', nl,
      ''    print(f'', dq, ''__FLARE_RESULT__{result_hex}__FLARE_RESULT__'', dq, '')'', nl, nl,
      ''except Exception as e:'', nl,
      ''    print(f'', dq, ''__FLARE_ERROR__{str(e)}__FLARE_ERROR__'', dq,
        '', file=sys.stderr)'', nl,
      ''    traceback.print_exc()'', nl]"

text \<open>The template literal of \<open>handleExecute\<close>, with \<open>args\<close> and \<open>kwargs\<close>.\<close>

definition call_script :: "string \<Rightarrow> string \<Rightarrow> string \<Rightarrow> string \<Rightarrow> string" where
  "call_script userCode functionName argsHex kwargsHex = concat
     [nl, ''import cloudpickle'', nl, ''import sys'', nl, ''import traceback'', nl, nl,
      ''# Load user code (define the function)'', nl, userCode, nl, nl,
      ''try:'', nl,
      ''    # Deserialize inputs'', nl,
      ''    args = cloudpickle.loads(bytes.fromhex('', dq, argsHex, dq, ''))'', nl,
      ''    kwargs = cloudpickle.loads(bytes.fromhex('', dq, kwargsHex, dq, ''))'', nl, nl,
      ''    # Execute function'', nl,
      ''    result = '', functionName, ''(*args, **kwargs)'', nl, nl,
      ''    # Serialize and print result with markers'', nl,
      ''    result_hex = cloudpickle.dumps(result).hex()'', nl,
      ''    print(f'', dq, ''__FLARE_RESULT__{result_hex}__FLARE_RESULT__'', dq, '')'', nl, nl,
      ''except Exception as e:'', nl,
      ''    print(f'', dq, ''__FLARE_ERROR__{str(e)}__FLARE_ERROR__'', dq,
        '', file=sys.stderr)'', nl,
      ''    traceback.print_exc()'', nl]"

section \<open>Single-item execution (batch path)\<close>

text \<open>
  \<open>executeItem\<close>. The result is what the promise settles to (\<open>Inl\<close>: it rejects)
  and the calls issued. The sandbox identifier and the code context are made before the
  \<open>try\<close>; the \<open>finally\<close> block, with the \<open>destroy\<close> call and its own
  \<open>try\<close>/\<open>catch\<close>, belongs to that \<open>try\<close>.
\<close>

definition executeItem ::
  "call_env \<Rightarrow> string \<Rightarrow> string \<Rightarrow> string \<Rightarrow> string \<Rightarrow> int
     \<Rightarrow> (thrown + ExecuteResponse) \<times> event list" where
  "executeItem env functionId userCode functionName itemHex timeoutSeconds =
     (let startedAt = startedAt_now env;
          startTime = startTime_now env;
          sandboxId = functionId @ ''-'' @ take 8 (randomUUID env)
      in case createCodeContext env sandboxId of
           Inl e \<Rightarrow> (Inl e, [CreateCodeContext sandboxId])
         | Inr pythonCtx \<Rightarrow>
            (let executionCode = item_script userCode functionName itemHex;
                 timeoutMs = timeoutSeconds * 1000;
                 completedAt = completedAt_now env;
                 executionTimeMs = endTime_now env - startTime;
                 outcome =
                   (case runCode env sandboxId executionCode pythonCtx timeoutMs of
                      Inl e \<Rightarrow>
                        \<lparr>success = False, result = None, stdout = None, stderr = None,
                         error = Some (message_or e ''Execution failed''),
                         execution_time_ms = Some executionTimeMs,
                         sandbox_id = Some sandboxId,
                         started_at = Some startedAt, completed_at = Some completedAt\<rparr>
                    | Inr res \<Rightarrow>
                        if truthy (SandboxResult.error res)
                        then \<lparr>success = False, result = None, stdout = None,
                              stderr = Some (stderr_text res),
                              error = SandboxResult.error res,
                              execution_time_ms = Some executionTimeMs,
                              sandbox_id = Some sandboxId,
                              started_at = Some startedAt, completed_at = Some completedAt\<rparr>
                        else
                          (let stdout = stdout_text res;
                               stderr = stderr_text res
                           in if includes_str stderr FLARE_ERROR
                              then
                                (let errorMsg =
                                       (case regex_match FLARE_ERROR stderr of
                                          Some g \<Rightarrow> g
                                        | None \<Rightarrow> ''Unknown error'')
                                 in \<lparr>success = False, result = None, stdout = None,
                                     stderr = Some stderr, error = Some errorMsg,
                                     execution_time_ms = Some executionTimeMs,
                                     sandbox_id = Some sandboxId,
                                     started_at = Some startedAt,
                                     completed_at = Some completedAt\<rparr>)
                              else
                                (case regex_match FLARE_RESULT stdout of
                                   None \<Rightarrow>
                                     \<lparr>success = False, result = None, stdout = Some stdout,
                                      stderr = Some stderr,
                                      error = Some ''Failed to extract result from output'',
                                      execution_time_ms = Some executionTimeMs,
                                      sandbox_id = Some sandboxId,
                                      started_at = Some startedAt,
                                      completed_at = Some completedAt\<rparr>
                                 | Some g \<Rightarrow>
                                     \<lparr>success = True, result = Some g, stdout = Some stdout,
                                      stderr = Some stderr, error = None,
                                      execution_time_ms = Some executionTimeMs,
                                      sandbox_id = Some sandboxId,
                                      started_at = Some startedAt,
                                      completed_at = Some completedAt\<rparr>)));
                 cleanup =
                   (case destroy env sandboxId of
                      None \<Rightarrow> [Destroy sandboxId]
                    | Some e \<Rightarrow>
                        [Destroy sandboxId,
                         ConsoleError (''Failed to destroy sandbox '' @ sandboxId @ '':'')])
             in (Inr outcome,
                 [CreateCodeContext sandboxId,
                  RunCode sandboxId executionCode pythonCtx timeoutMs] @ cleanup)))"

section \<open>Batch dispatch\<close>

text \<open>
  \<open>Promise.all\<close> over promises that have settled: the array of their values, or a
  rejection when one of them rejects (here the one that comes first in the array; which
  rejection wins in time is not modelled).
\<close>

fun promise_all :: "(thrown + 'a) list \<Rightarrow> thrown + 'a list" where
  "promise_all [] = Inr []"
| "promise_all (Inl e # ps) = Inl e"
| "promise_all (Inr v # ps) =
     (case promise_all ps of Inl e \<Rightarrow> Inl e | Inr vs \<Rightarrow> Inr (v # vs))"

text \<open>
  The body of \<open>for (const batch of batches)\<close>. \<open>batch.map\<close> calls \<open>executeItem\<close>
  on the items of the round in order; \<open>k\<close> counts the calls made before this round,
  so \<open>enumerate k batch\<close> pairs each item with the number of its call.
  All calls of a round are issued before \<open>Promise.all\<close> is awaited, so their events
  are in the trace even when one of them rejects; a rejection leaves the loop. Within a
  round the trace lists the events item by item.
\<close>

fun run_batches ::
  "(nat \<Rightarrow> call_env) \<Rightarrow> string \<Rightarrow> string \<Rightarrow> string \<Rightarrow> int \<Rightarrow> string list list
     \<Rightarrow> nat \<Rightarrow> ExecuteResponse list \<Rightarrow> event list
     \<Rightarrow> (thrown + ExecuteResponse list) \<times> event list" where
  "run_batches envs functionId userCode functionName tmo [] k allResults trace =
     (Inr allResults, trace)"
| "run_batches envs functionId userCode functionName tmo (batch # batches) k allResults trace =
     (let batchTasks =
            map (\<lambda>(j, itemHex).
                   executeItem (envs j) functionId userCode functionName itemHex tmo)
                (enumerate k batch);
          trace' = trace @ concat (map snd batchTasks)
      in case promise_all (map fst batchTasks) of
           Inl e \<Rightarrow> (Inl e, trace')
         | Inr batchResults \<Rightarrow>
             run_batches envs functionId userCode functionName tmo batches
               (k + length batch) (allResults @ batchResults) trace')"

text \<open>A response whose body is an \<open>ExecuteResponse\<close> with only \<open>success\<close> and \<open>error\<close>.\<close>

definition error_response :: "nat \<Rightarrow> string \<Rightarrow> http_response" where
  "error_response st msg =
     \<lparr>status = st,
      body = Single \<lparr>success = False, result = None, stdout = None, stderr = None,
                     error = Some msg, execution_time_ms = None, sandbox_id = None,
                     started_at = None, completed_at = None\<rparr>\<rparr>"

text \<open>
  \<open>handleExecuteBatch\<close>. The request body is \<open>None\<close> when it is not JSON. The
  result is \<open>None\<close> when the handler does not return (the chunking loop does not end).
\<close>

definition handleExecuteBatch ::
  "batch_env \<Rightarrow> ExecuteBatchRequest option \<Rightarrow> (http_response \<times> event list) option" where
  "handleExecuteBatch env request =
     (case request of
        None \<Rightarrow> Some (error_response 400 ''Invalid JSON in request body'', [])
      | Some b \<Rightarrow>
          if \<not> truthy (function_id b) \<or> \<not> truthy (code b) \<or> \<not> truthy (function_name b)
             \<or> items b = None
          then Some (error_response 400
                 ''Missing required fields: function_id, code, function_name, items'', [])
          else
            (let startTime = batch_startTime env;
                 maxContainers = or_default (max_containers b) 10;
                 tmo = or_default (timeout b) 300
             in case chunk (the (items b)) maxContainers of
                  None \<Rightarrow> None
                | Some batches \<Rightarrow>
                   (case run_batches (call env) (the (function_id b)) (the (code b))
                           (the (function_name b)) tmo batches 0 [] [] of
                      (Inr allResults, trace) \<Rightarrow>
                        Some (\<lparr>status = 200,
                               body = Batch \<lparr>results = allResults,
                                 total_execution_time_ms = batch_endTime env - startTime,
                                 batch_count = length batches,
                                 max_containers = maxContainers\<rparr>\<rparr>,
                              trace)
                    | (Inl e, trace) \<Rightarrow>
                        Some (error_response 500 (message_or e ''Batch execution failed''),
                              trace @ [ConsoleError ''Batch execution error:'']))))"

section \<open>Single execution\<close>

text \<open>
  \<open>handleExecute\<close>. \<open>idFromName\<close> is the platform's naming of a sandbox after the
  function; everything from the clock readings on is inside the \<open>try\<close>, and no
  \<open>destroy\<close> call is made.
\<close>

definition handleExecute ::
  "(string \<Rightarrow> string) \<Rightarrow> call_env \<Rightarrow> ExecuteRequest option \<Rightarrow> http_response \<times> event list" where
  "handleExecute idFromName env request =
     (case request of
        None \<Rightarrow> (error_response 400 ''Invalid JSON in request body'', [])
      | Some b \<Rightarrow>
          if \<not> truthy (ExecuteRequest.function_id b) \<or> \<not> truthy (ExecuteRequest.code b)
             \<or> \<not> truthy (ExecuteRequest.function_name b)
          then (error_response 400
                 ''Missing required fields: function_id, code, function_name'', [])
          else
            (let startedAt = startedAt_now env;
                 startTime = startTime_now env;
                 sandboxIdStr = idFromName (the (ExecuteRequest.function_id b))
             in case createCodeContext env sandboxIdStr of
                  Inl e \<Rightarrow>
                    (error_response 500 (message_or e ''Execution failed''),
                     [CreateCodeContext sandboxIdStr, ConsoleError ''Execution error:''])
                | Inr pythonCtx \<Rightarrow>
                   (let executionCode =
                          call_script (the (ExecuteRequest.code b))
                            (the (ExecuteRequest.function_name b))
                            (or_empty (args b)) (or_empty (kwargs b));
                        timeoutMs = or_default (ExecuteRequest.timeout b) 300 * 1000;
                        issued = [CreateCodeContext sandboxIdStr,
                                  RunCode sandboxIdStr executionCode pythonCtx timeoutMs]
                    in case runCode env sandboxIdStr executionCode pythonCtx timeoutMs of
                         Inl e \<Rightarrow>
                           (error_response 500 (message_or e ''Execution failed''),
                            issued @ [ConsoleError ''Execution error:''])
                       | Inr res \<Rightarrow>
                           if truthy (SandboxResult.error res)
                           then (\<lparr>status = 500,
                                  body = Single \<lparr>success = False, result = None,
                                    stdout = None, stderr = Some (stderr_text res),
                                    error = SandboxResult.error res,
                                    execution_time_ms = None, sandbox_id = None,
                                    started_at = None, completed_at = None\<rparr>\<rparr>,
                                 issued)
                           else
                             (let stdout = stdout_text res;
                                  stderr = stderr_text res
                              in if includes_str stderr FLARE_ERROR
                                 then
                                   (let errorMsg =
                                          (case regex_match FLARE_ERROR stderr of
                                             Some g \<Rightarrow> g
                                           | None \<Rightarrow> ''Unknown error'')
                                    in (\<lparr>status = 500,
                                         body = Single \<lparr>success = False, result = None,
                                           stdout = None, stderr = Some stderr,
                                           error = Some errorMsg,
                                           execution_time_ms = None, sandbox_id = None,
                                           started_at = None, completed_at = None\<rparr>\<rparr>,
                                        issued))
                                 else
                                   (case regex_match FLARE_RESULT stdout of
                                      None \<Rightarrow>
                                        (\<lparr>status = 500,
                                          body = Single \<lparr>success = False, result = None,
                                            stdout = Some stdout, stderr = Some stderr,
                                            error = Some ''Failed to extract result from output'',
                                            execution_time_ms = None, sandbox_id = None,
                                            started_at = None, completed_at = None\<rparr>\<rparr>,
                                         issued)
                                    | Some g \<Rightarrow>
                                        (\<lparr>status = 200,
                                          body = Single \<lparr>success = True, result = Some g,
                                            stdout = Some stdout, stderr = Some stderr,
                                            error = None,
                                            execution_time_ms =
                                              Some (endTime_now env - startTime),
                                            sandbox_id = Some sandboxIdStr,
                                            started_at = Some startedAt,
                                            completed_at = Some (completedAt_now env)\<rparr>\<rparr>,
                                         issued))))))"

section \<open>The decoding precedence of the spec\<close>


section \<open>A sample batch\<close>

text \<open>
  A session that answers every call and returns \<open>r\<close> from \<open>runCode\<close>
  (\<open>sample_session\<close>), and a batch of three items in rounds of two: the second item's
  function raises \<open>ValueError("bad")\<close>, the other two return.
\<close>

definition fixture_uuid :: "nat \<Rightarrow> string" where
  "fixture_uuid k =
     (if k = 0 then ''0a1b2c3d-1111-4111-8111-111111111111''
      else if k = 1 then ''4e5f6a7b-2222-4222-9222-222222222222''
      else ''8c9d0e1f-3333-4333-a333-333333333333'')"

definition fixture_output :: "nat \<Rightarrow> SandboxResult" where
  "fixture_output k =
     (if k = 1
      then \<lparr>logs = Some \<lparr>SandboxLogs.stdout = Some [],
                SandboxLogs.stderr = Some [''__FLARE_ERROR__bad__FLARE_ERROR__'',
                                           ''Traceback (most recent call last):'']\<rparr>,
            error = None\<rparr>
      else \<lparr>logs = Some \<lparr>SandboxLogs.stdout =
                  Some [''__FLARE_RESULT__'' @ (if k = 0 then ''8002'' else ''8006'')
                          @ ''__FLARE_RESULT__''],
                SandboxLogs.stderr = Some []\<rparr>,
            error = None\<rparr>)"

definition sample_session :: "string \<Rightarrow> SandboxResult \<Rightarrow> call_env" where
  "sample_session uuid r =
     \<lparr>startedAt_now = ''2025-01-01T00:00:00.000Z'', startTime_now = 1000,
      completedAt_now = ''2025-01-01T00:00:00.250Z'', endTime_now = 1250,
      randomUUID = uuid,
      createCodeContext = (\<lambda>sandboxId. Inr ''ctx''),
      runCode = (\<lambda>sandboxId script ctx timeoutMs. Inr r),
      destroy = (\<lambda>sandboxId. None)\<rparr>"

definition fixture_call :: "nat \<Rightarrow> call_env" where
  "fixture_call k = sample_session (fixture_uuid k) (fixture_output k)"

definition fixture_env :: batch_env where
  "fixture_env = \<lparr>batch_startTime = 1000, batch_endTime = 1600, call = fixture_call\<rparr>"

definition fixture_request :: ExecuteBatchRequest where
  "fixture_request =
     \<lparr>function_id = Some ''double'', code = Some ''def double(x): return 2 * x'',
      function_name = Some ''double'', items = Some [''8001'', ''8002'', ''8003''],
      max_containers = Some 2, timeout = None\<rparr>"


definition sample_call :: ExecuteRequest where
  "sample_call =
     \<lparr>ExecuteRequest.function_id = Some ''double'',
      ExecuteRequest.code = Some ''def double(x): return 2 * x'',
      ExecuteRequest.function_name = Some ''double'',
      args = Some ''80'', kwargs = None, ExecuteRequest.timeout = None\<rparr>"

text \<open>
  Two runs whose stderr holds the error marker: a line with two marker pairs between two
  other lines, and a message with a line break between its markers.
\<close>

definition two_pairs_output :: SandboxResult where
  "two_pairs_output =
     \<lparr>logs = Some \<lparr>SandboxLogs.stdout = Some [],
             SandboxLogs.stderr =
               Some [''warning: retrying'',
                     ''__FLARE_ERROR__first__FLARE_ERROR__ and __FLARE_ERROR__second__FLARE_ERROR__'',
                     ''Traceback (most recent call last):'']\<rparr>,
      error = None\<rparr>"

definition split_output :: SandboxResult where
  "split_output =
     \<lparr>logs = Some \<lparr>SandboxLogs.stdout = Some [],
             SandboxLogs.stderr = Some [''__FLARE_ERROR__line one'', ''line two__FLARE_ERROR__'']\<rparr>,
      error = None\<rparr>"

text \<open>
  A batch of five items in rounds of two in which four items fail, each in its own way:
  the runtime reports an error, the function raises, the output has no result sentinel,
  and \<open>runCode\<close> itself rejects (that session also fails to be destroyed).
\<close>

definition mixed_output :: "nat \<Rightarrow> SandboxResult" where
  "mixed_output k =
     (if k = 0
      then \<lparr>logs = Some \<lparr>SandboxLogs.stdout = Some [], SandboxLogs.stderr = Some []\<rparr>,
            error = Some ''Execution timed out''\<rparr>
      else if k = 1
      then \<lparr>logs = Some \<lparr>SandboxLogs.stdout = Some [],
                SandboxLogs.stderr = Some [''__FLARE_ERROR__bad__FLARE_ERROR__'']\<rparr>,
            error = None\<rparr>
      else if k = 2
      then \<lparr>logs = Some \<lparr>SandboxLogs.stdout = Some [''hello''], SandboxLogs.stderr = Some []\<rparr>,
            error = None\<rparr>
      else \<lparr>logs = Some \<lparr>SandboxLogs.stdout = Some [''__FLARE_RESULT__800a__FLARE_RESULT__''],
                SandboxLogs.stderr = Some []\<rparr>,
            error = None\<rparr>)"

definition mixed_call :: "nat \<Rightarrow> call_env" where
  "mixed_call k =
     (if k = 3
      then (sample_session (fixture_uuid k) (mixed_output k))
             \<lparr>runCode := (\<lambda>sandboxId script ctx timeoutMs. Inl (Error ''sandbox unreachable'')),
              destroy := (\<lambda>sandboxId. Some (Error ''sandbox unreachable''))\<rparr>
      else sample_session (fixture_uuid k) (mixed_output k))"

definition mixed_env :: batch_env where
  "mixed_env = \<lparr>batch_startTime = 1000, batch_endTime = 1900, call = mixed_call\<rparr>"

definition mixed_request :: ExecuteBatchRequest where
  "mixed_request =
     \<lparr>function_id = Some ''double'', code = Some ''def double(x): return 2 * x'',
      function_name = Some ''double'',
      items = Some [''8001'', ''8002'', ''8003'', ''8004'', ''8005''],
      max_containers = Some 2, timeout = Some 60\<rparr>"

text \<open>
  Two items whose UUIDs differ and agree in their first eight characters; the sample
  batch with \<open>max_containers\<close> set to zero; the sample batch with a second item whose
  \<open>createCodeContext\<close> rejects; and a session whose \<open>createCodeContext\<close> rejects.
\<close>

definition colliding_env :: batch_env where
  "colliding_env =
     \<lparr>batch_startTime = 1000, batch_endTime = 1300,
      call = (\<lambda>k. sample_session
                (if k = 0 then ''0a1b2c3d-1111-4111-8111-111111111111''
                 else ''0a1b2c3d-2222-4222-9222-222222222222'')
                (fixture_output 0))\<rparr>"

definition colliding_request :: ExecuteBatchRequest where
  "colliding_request =
     \<lparr>function_id = Some ''double'', code = Some ''def double(x): return 2 * x'',
      function_name = Some ''double'', items = Some [''8001'', ''8002''],
      max_containers = None, timeout = None\<rparr>"

definition zero_cap_request :: ExecuteBatchRequest where
  "zero_cap_request = fixture_request\<lparr>max_containers := Some 0\<rparr>"

definition aborting_env :: batch_env where
  "aborting_env =
     fixture_env\<lparr>call := (\<lambda>k. if k = 1
                              then (fixture_call k)
                                     \<lparr>createCodeContext :=
                                        (\<lambda>sandboxId. Inl (Error ''container failed to start''))\<rparr>
                              else fixture_call k)\<rparr>"

definition unreachable_session :: call_env where
  "unreachable_session =
     (sample_session ''0a1b2c3d-1111-4111-8111-111111111111'' (fixture_output 0))
       \<lparr>createCodeContext := (\<lambda>sandboxId. Inl (Error ''container failed to start''))\<rparr>"

section \<open>Properties of chunking\<close>

lemma slice_window:
  assumes "0 \<le> s" "s \<le> int (length xs)" "0 \<le> z"
  shows "slice xs s (s + z) = take (nat z) (drop (nat s) xs)"
proof -
  have "take (nat (min (s + z) (int (length xs)) - s)) (drop (nat s) xs)
        = take (nat z) (drop (nat s) xs)"
  proof (cases "s + z \<le> int (length xs)")
    case True
    then show ?thesis by (simp add: min_def)
  next
    case False
    then have "length (drop (nat s) xs) \<le> nat z" "length (drop (nat s) xs) \<le> nat (int (length xs) - s)"
      using assms by auto
    then show ?thesis using False by (simp add: min_def)
  qed
  then show ?thesis using assms by (simp add: slice_def Let_def min_def)
qed

lemma chunk_loop_closed:
  assumes "1 \<le> sz" "0 \<le> i"
  shows "chunk_loop array sz i chunks =
           Some (chunks @ map (\<lambda>j. slice array (i + int j * sz) (i + int j * sz + sz))
                              [0..<rounds (length array) sz i])"
  using assms(2)
proof (induction "nat (int (length array) - i)" arbitrary: i chunks rule: less_induct)
  case less
  show ?case
  proof (cases "i < int (length array)")
    case False
    then have "0 \<le> (i - int (length array)) div sz"
      using assms(1) by (simp add: pos_imp_zdiv_nonneg_iff)
    then have "rounds (length array) sz i = 0" by (simp add: rounds_def)
    with False show ?thesis by (subst chunk_loop.simps) simp
  next
    case True
    have step: "(i + sz - int (length array)) div sz = (i - int (length array)) div sz + 1"
    proof -
      have "i + sz - int (length array) = (i - int (length array)) + sz" by simp
      then show ?thesis using assms(1) by (simp only: div_add_self2)
    qed
    have neg: "(i - int (length array)) div sz < 0"
      using True assms(1) by (simp add: div_neg_pos_less0)
    have r: "rounds (length array) sz i = Suc (rounds (length array) sz (i + sz))"
      using step neg by (simp add: rounds_def)
    have IH: "chunk_loop array sz (i + sz) (chunks @ [slice array i (i + sz)]) =
        Some ((chunks @ [slice array i (i + sz)]) @
          map (\<lambda>j. slice array (i + sz + int j * sz) (i + sz + int j * sz + sz))
              [0..<rounds (length array) sz (i + sz)])"
      using less.hyps[of "i + sz"] True assms(1) less.prems by simp
    have shift: "map (\<lambda>j. slice array (i + int j * sz) (i + int j * sz + sz))
                   [0..<Suc (rounds (length array) sz (i + sz))] =
          slice array i (i + sz) #
          map (\<lambda>j. slice array (i + sz + int j * sz) (i + sz + int j * sz + sz))
              [0..<rounds (length array) sz (i + sz)]"
      by (simp add: upt_conv_Cons map_Suc_upt[symmetric] algebra_simps del: upt_Suc)
    show ?thesis
      unfolding r shift using True IH by (subst chunk_loop.simps) simp
  qed
qed

lemma rounds_neg_div:
  assumes "1 \<le> sz"
  shows "int (rounds n sz 0) = - ((- int n) div sz)"
proof -
  have "(- int n) div sz \<le> 0"
    using assms by (simp add: div_nonpos_pos_le0)
  then show ?thesis by (simp add: rounds_def)
qed

lemma rounds_ceiling:
  assumes "1 \<le> sz"
  shows "int (rounds n sz 0) = \<lceil>real n / real_of_int sz\<rceil>"
proof -
  have "\<lceil>real_of_int (int n) / real_of_int sz\<rceil> = - ((- int n) div sz)"
    by (rule ceiling_divide_eq_div)
  then show ?thesis using rounds_neg_div[OF assms, of n] by simp
qed

lemma rounds_cover:
  assumes "1 \<le> sz"
  shows "int n \<le> int (rounds n sz 0) * sz"
    and "(int (rounds n sz 0) - 1) * sz < int n"
proof -
  define q where "q = (- int n) div sz"
  have eq: "- int n = sz * q + (- int n) mod sz"
    unfolding q_def by simp
  have m: "0 \<le> (- int n) mod sz" "(- int n) mod sz < sz"
    using assms by simp_all
  have r: "int (rounds n sz 0) = - q"
    unfolding q_def by (rule rounds_neg_div[OF assms])
  show "int n \<le> int (rounds n sz 0) * sz"
    using eq m unfolding r by (simp add: algebra_simps)
  show "(int (rounds n sz 0) - 1) * sz < int n"
    using eq m unfolding r by (simp add: algebra_simps)
qed

lemma rounds_bound:
  assumes "1 \<le> sz" "j < rounds n sz 0"
  shows "int j * sz < int n"
proof -
  have "int j \<le> int (rounds n sz 0) - 1" using assms(2) by simp
  then have "int j * sz \<le> (int (rounds n sz 0) - 1) * sz"
    using assms(1) by (intro mult_right_mono) simp_all
  with rounds_cover(2)[OF assms(1), of n] show ?thesis by simp
qed

lemma concat_windows:
  "concat (map (\<lambda>j. take c (drop (j * c) xs)) [0..<r]) = take (r * c) xs"
proof (induction r)
  case 0
  then show ?case by simp
next
  case (Suc r)
  have "Suc r * c = r * c + c" by simp
  then have "take (Suc r * c) xs = take (r * c) xs @ take c (drop (r * c) xs)"
    by (simp only: take_add)
  with Suc show ?case by simp
qed

lemma chunk_closed:
  assumes "1 \<le> sz"
  shows "chunk array sz =
           Some (map (\<lambda>j. take (nat sz) (drop (j * nat sz) array))
                     [0..<rounds (length array) sz 0])"
proof -
  have "slice array (int j * sz) (int j * sz + sz) = take (nat sz) (drop (j * nat sz) array)"
    if "j < rounds (length array) sz 0" for j
  proof -
    have "int j * sz < int (length array)" using rounds_bound[OF assms that] .
    moreover have "0 \<le> int j * sz" using assms by simp
    moreover have "nat (int j * sz) = j * nat sz"
      using assms by (simp add: nat_mult_distrib)
    ultimately show ?thesis
      using slice_window[of "int j * sz" array sz] assms by simp
  qed
  then have "map (\<lambda>j. slice array (0 + int j * sz) (0 + int j * sz + sz))
                 [0..<rounds (length array) sz 0] =
             map (\<lambda>j. take (nat sz) (drop (j * nat sz) array))
                 [0..<rounds (length array) sz 0]"
    by simp
  then show ?thesis
    unfolding chunk_def using chunk_loop_closed[OF assms, of 0 array "[]"] by simp
qed

lemma chunk_concat:
  assumes "1 \<le> sz" "chunk array sz = Some batches"
  shows "concat batches = array"
proof -
  have "length array \<le> rounds (length array) sz 0 * nat sz"
    using rounds_cover(1)[OF assms(1), of "length array"] assms(1)
    by (metis nat_int nat_mono nat_mult_distrib of_nat_0_le_iff)
  then show ?thesis
    using assms(2) unfolding chunk_closed[OF assms(1)]
    by (auto simp: concat_windows)
qed


lemma rounds_cover_nat:
  assumes "1 \<le> sz"
  shows "n \<le> rounds n sz 0 * nat sz"
    and "(rounds n sz 0 - 1) * nat sz < n \<or> n = 0"
proof -
  show "n \<le> rounds n sz 0 * nat sz"
    using rounds_cover(1)[OF assms(1), of n] assms(1)
    by (metis nat_int nat_mono nat_mult_distrib of_nat_0_le_iff)
  show "(rounds n sz 0 - 1) * nat sz < n \<or> n = 0"
  proof (cases "rounds n sz 0")
    case 0
    then show ?thesis using \<open>n \<le> rounds n sz 0 * nat sz\<close> by simp
  next
    case (Suc r)
    have "int r * sz < int n"
      using rounds_bound[OF assms, of r n] Suc by simp
    moreover have "int (r * nat sz) = int r * sz" using assms by simp
    ultimately have "r * nat sz < n" by linarith
    then show ?thesis using Suc by simp
  qed
qed

lemma last_round_size:
  fixes c :: nat
  assumes "n \<le> r * c" "(r - 1) * c < n" "n mod c \<noteq> 0"
  shows "n - (r - 1) * c = n mod c"
proof -
  have "r \<noteq> 0" using assms(1,3) by (cases r) auto
  then obtain q where r: "r = Suc q" by (cases r) auto
  have "n \<noteq> Suc q * c" using assms(3) by auto
  then have "n < c * Suc q" using assms(1) r by (simp add: mult.commute)
  moreover have "c * q \<le> n" using assms(2) r by (simp add: mult.commute)
  ultimately have "n div c = q" by (rule div_nat_eqI[rotated])
  then show ?thesis using r by (simp add: modulo_nat_def)
qed

lemma chunk_rounds:
  assumes "1 \<le> sz" "chunk array sz = Some batches"
  shows "length batches = rounds (length array) sz 0"
    and "\<And>j. Suc j < length batches \<Longrightarrow> length (batches ! j) = nat sz"
    and "\<And>j. j < length batches \<Longrightarrow> length (batches ! j) \<le> nat sz"
    and "length array mod nat sz \<noteq> 0 \<Longrightarrow>
           length (last batches) = length array mod nat sz"
proof -
  let ?r = "rounds (length array) sz 0"
  have bs: "batches = map (\<lambda>j. take (nat sz) (drop (j * nat sz) array)) [0..<?r]"
    using assms(2) unfolding chunk_closed[OF assms(1)] by simp
  show len: "length batches = ?r" by (simp add: bs)
  show "length (batches ! j) = nat sz" if "Suc j < length batches" for j
  proof -
    have "int (Suc j) * sz < int (length array)"
      using rounds_bound[OF assms(1), of "Suc j" "length array"] that len by simp
    moreover have "int (Suc j * nat sz) = int (Suc j) * sz"
      using assms(1) by (simp add: algebra_simps)
    ultimately have "Suc j * nat sz < length array" by linarith
    then show ?thesis using that by (simp add: bs)
  qed
  show "length (batches ! j) \<le> nat sz" if "j < length batches" for j
    using that by (simp add: bs)
  show "length (last batches) = length array mod nat sz"
    if nz: "length array mod nat sz \<noteq> 0"
  proof -
    have n0: "length array \<noteq> 0" using nz by auto
    have c1: "length array \<le> ?r * nat sz" and c2: "(?r - 1) * nat sz < length array"
      using rounds_cover_nat[OF assms(1), of "length array"] n0 by auto
    have "?r \<noteq> 0"
    proof
      assume "?r = 0"
      then have "length array \<le> 0" using c1 by simp
      then show False using n0 by simp
    qed
    then have "last batches = take (nat sz) (drop ((?r - 1) * nat sz) array)"
      by (simp add: bs last_map)
    moreover have "length array - (?r - 1) * nat sz = length array mod nat sz"
      by (rule last_round_size[OF c1 c2 nz])
    moreover have "length array mod nat sz < nat sz" using assms(1) by simp
    ultimately show ?thesis by simp
  qed
qed


section \<open>Properties of the sentinel search\<close>

lemma includes_str_sublist: "includes_str s t \<longleftrightarrow> sublist t s"
  by (induction s) (simp_all add: sublist_Cons_right)

lemma backtrack_None_iff:
  "backtrack M rest k = None \<longleftrightarrow> (\<forall>j \<le> k. \<not> prefix M (drop j rest))"
  by (induction k) (auto simp: le_Suc_eq)

lemma backtrack_Some_D:
  assumes "backtrack M rest k = Some g"
  shows "\<exists>j \<le> k. g = take j rest \<and> prefix M (drop j rest)"
  using assms
proof (induction k)
  case 0
  then show ?case by (auto split: if_splits)
next
  case (Suc k)
  show ?case
  proof (cases "prefix M (drop (Suc k) rest)")
    case True
    with Suc.prems have "g = take (Suc k) rest" by simp
    with True show ?thesis by blast
  next
    case False
    with Suc.prems have "backtrack M rest k = Some g" by simp
    from Suc.IH[OF this] obtain j where "j \<le> k" "g = take j rest" "prefix M (drop j rest)"
      by blast
    then show ?thesis using le_SucI by blast
  qed
qed

lemma backtrack_greatest:
  assumes "j \<le> k" "prefix M (drop j rest)"
      and "\<And>j'. j < j' \<Longrightarrow> j' \<le> k \<Longrightarrow> \<not> prefix M (drop j' rest)"
  shows "backtrack M rest k = Some (take j rest)"
  using assms
proof (induction k)
  case 0
  then show ?case by simp
next
  case (Suc k)
  show ?case
  proof (cases "j = Suc k")
    case True
    with Suc.prems show ?thesis by simp
  next
    case False
    with Suc.prems have "j \<le> k" "\<not> prefix M (drop (Suc k) rest)" by auto
    with Suc show ?thesis by simp
  qed
qed

lemma match_at_Some_D:
  assumes "match_at M s = Some g"
  shows "\<exists>post. s = M @ g @ M @ post \<and> (\<forall>c \<in> set g. \<not> line_terminator c)"
proof -
  let ?P = "\<lambda>c. \<not> line_terminator c"
  from assms have pre: "prefix M s"
    by (auto simp: match_at_def split: if_splits)
  then obtain rest where s: "s = M @ rest" by (auto simp: prefix_def)
  from assms s obtain j where j: "j \<le> length (takeWhile ?P rest)"
    and g: "g = take j rest" and p: "prefix M (drop j rest)"
    using backtrack_Some_D[of M rest "length (takeWhile ?P rest)" g]
    by (auto simp: match_at_def Let_def)
  from p obtain post where post: "drop j rest = M @ post" by (auto simp: prefix_def)
  have "rest = g @ M @ post"
    using append_take_drop_id[of j rest] g post by simp
  moreover have "take j (takeWhile ?P rest @ dropWhile ?P rest) = take j (takeWhile ?P rest)"
    using j by (simp del: takeWhile_dropWhile_id)
  then have "g = take j (takeWhile ?P rest)"
    using g by simp
  then have "\<forall>c \<in> set g. ?P c"
    using in_set_takeD set_takeWhileD by metis
  ultimately show ?thesis using s by auto
qed


lemma regex_match_start:
  assumes "match_at M s = Some g"
  shows "regex_match M s = Some g"
  using assms by (cases s) simp_all

lemma regex_match_Some_D:
  assumes "regex_match M s = Some g"
  shows "\<exists>pre post. s = pre @ M @ g @ M @ post \<and> (\<forall>c \<in> set g. \<not> line_terminator c)"
  using assms
proof (induction s)
  case Nil
  then have "match_at M [] = Some g" by simp
  from match_at_Some_D[OF this] show ?case by (metis append_Nil)
next
  case (Cons c cs)
  show ?case
  proof (cases "match_at M (c # cs)")
    case (Some g')
    with Cons.prems have "match_at M (c # cs) = Some g" by simp
    from match_at_Some_D[OF this] show ?thesis by (metis append_Nil)
  next
    case None
    with Cons.prems have "regex_match M cs = Some g" by simp
    from Cons.IH[OF this] obtain pre post where
      "cs = pre @ M @ g @ M @ post" "\<forall>c \<in> set g. \<not> line_terminator c" by blast
    then have "c # cs = (c # pre) @ M @ g @ M @ post" by simp
    then show ?thesis using \<open>\<forall>c \<in> set g. \<not> line_terminator c\<close> by blast
  qed
qed

lemma match_at_sentinel:
  assumes "\<forall>c \<in> set g. \<not> line_terminator c"
  shows "match_at M (M @ g @ M @ post) \<noteq> None"
proof -
  let ?P = "\<lambda>c. \<not> line_terminator c"
  let ?rest = "g @ M @ post"
  have "takeWhile ?P ?rest = g @ takeWhile ?P (M @ post)"
    using assms by simp
  then have "length g \<le> length (takeWhile ?P ?rest)" by simp
  moreover have "prefix M (drop (length g) ?rest)" by simp
  ultimately have "backtrack M ?rest (length (takeWhile ?P ?rest)) \<noteq> None"
    unfolding backtrack_None_iff by blast
  then show ?thesis by (simp add: match_at_def Let_def)
qed

lemma regex_match_sentinel:
  assumes "\<forall>c \<in> set g. \<not> line_terminator c"
  shows "regex_match M (pre @ M @ g @ M @ post) \<noteq> None"
proof (induction pre)
  case Nil
  from match_at_sentinel[OF assms, of M post] obtain g' where
    "match_at M (M @ g @ M @ post) = Some g'" by blast
  from regex_match_start[OF this] show ?case by simp
next
  case (Cons p pre)
  then show ?case by (simp split: option.splits)
qed

lemma regex_match_None_iff: "regex_match M s = None \<longleftrightarrow> \<not> has_sentinel M s"
proof
  show "regex_match M s = None \<Longrightarrow> \<not> has_sentinel M s"
    unfolding has_sentinel_def using regex_match_sentinel by blast
  show "\<not> has_sentinel M s \<Longrightarrow> regex_match M s = None"
    unfolding has_sentinel_def using regex_match_Some_D by (cases "regex_match M s") blast+
qed

lemma has_sentinel_includes:
  assumes "has_sentinel M s"
  shows "includes_str s M"
  using assms unfolding has_sentinel_def includes_str_sublist by auto

lemma prefix_within_line:
  assumes M: "\<forall>c \<in> set M. \<not> line_terminator c"
      and p: "prefix M (xs @ dropWhile (\<lambda>c. \<not> line_terminator c) ys)"
  shows "prefix M xs"
proof -
  let ?dw = "dropWhile (\<lambda>c. \<not> line_terminator c) ys"
  from p consider "prefix M xs" | us where "M = xs @ us" "prefix us ?dw" "us \<noteq> []"
    unfolding prefix_append by (cases "prefix M xs") auto
  then show ?thesis
  proof cases
    case 1
    then show ?thesis .
  next
    case 2
    then obtain u us' where us: "us = u # us'" by (cases us) auto
    with 2 obtain zs where "?dw = u # us' @ zs" by (auto simp: prefix_def)
    then have "?dw \<noteq> []" "hd ?dw = u" by simp_all
    then have "line_terminator u" using hd_dropWhile[of "\<lambda>c. \<not> line_terminator c" ys] by auto
    moreover have "u \<in> set M" using 2 us by simp
    ultimately show ?thesis using M by blast
  qed
qed

lemma drop_within: "d \<le> length A \<Longrightarrow> drop d (A @ B) = drop d A @ B"
  by simp

lemma regex_match_greedy:
  assumes ne: "M \<noteq> []"
      and M: "\<forall>c \<in> set M. \<not> line_terminator c"
      and g: "\<forall>c \<in> set g. \<not> line_terminator c"
      and last: "\<not> sublist M (tl M @ takeWhile (\<lambda>c. \<not> line_terminator c) post)"
  shows "regex_match M (M @ g @ M @ post) = Some g"
proof -
  let ?P = "\<lambda>c. \<not> line_terminator c"
  let ?rest = "g @ M @ post"
  let ?A = "tl M @ takeWhile ?P post"
  have tw: "takeWhile ?P ?rest = g @ M @ takeWhile ?P post"
    using g M by simp
  have L: "length (takeWhile ?P ?rest) = length g + length M + length (takeWhile ?P post)"
    unfolding tw by simp
  have later: "\<not> prefix M (drop j ?rest)"
    if "length g < j" "j \<le> length (takeWhile ?P ?rest)" for j
  proof
    assume p: "prefix M (drop j ?rest)"
    define d where "d = j - Suc (length g)"
    have d: "j = length g + Suc d" using that(1) by (simp add: d_def)
    have dA: "d \<le> length ?A" using that(2) d ne unfolding L by (cases M) auto
    have "drop j ?rest = drop (Suc d) (M @ post)" using d by simp
    also have "\<dots> = drop d (tl M @ post)" using ne by (cases M) simp_all
    also have "tl M @ post = ?A @ dropWhile ?P post" by simp
    also have "drop d (?A @ dropWhile ?P post) = drop d ?A @ dropWhile ?P post"
      by (rule drop_within[OF dA])
    finally have "prefix M (drop d ?A @ dropWhile ?P post)" using p by simp
    from prefix_within_line[OF M this] obtain zs where "drop d ?A = M @ zs"
      by (auto simp: prefix_def)
    then have "?A = take d ?A @ M @ zs"
      using append_take_drop_id[of d ?A] by simp
    then have "sublist M ?A" unfolding sublist_def by blast
    with last show False by blast
  qed
  have "backtrack M ?rest (length (takeWhile ?P ?rest)) = Some (take (length g) ?rest)"
    by (rule backtrack_greatest) (use L later in auto)
  then have "match_at M (M @ g @ M @ post) = Some g"
    by (simp add: match_at_def Let_def)
  then show ?thesis by (rule regex_match_start)
qed

lemma regex_match_skip:
  assumes "M \<noteq> []" "\<not> sublist M (pre @ butlast M)"
  shows "regex_match M (pre @ M @ rest) = regex_match M (M @ rest)"
  using assms(2)
proof (induction pre)
  case Nil
  then show ?case by simp
next
  case (Cons p pre)
  have "\<not> prefix M (p # pre @ M @ rest)"
  proof
    assume "prefix M (p # pre @ M @ rest)"
    moreover have "p # pre @ M @ rest = ((p # pre) @ butlast M) @ last M # rest"
      using assms(1) by simp
    moreover have "length M \<le> length ((p # pre) @ butlast M)"
      by simp
    ultimately have "prefix M ((p # pre) @ butlast M)"
      by (metis prefix_length_prefix prefixI)
    then have "sublist M ((p # pre) @ butlast M)" by (rule prefix_imp_sublist)
    with Cons.prems show False by blast
  qed
  then have "match_at M (p # pre @ M @ rest) = None"
    by (simp add: match_at_def)
  moreover have "\<not> sublist M (pre @ butlast M)"
    using Cons.prems by (simp add: sublist_Cons_right)
  ultimately show ?case using Cons.IH by simp
qed

lemma regex_match_first_greedy:
  assumes ne: "M \<noteq> []"
      and M: "\<forall>c \<in> set M. \<not> line_terminator c"
      and first: "\<not> sublist M (pre @ butlast M)"
      and g: "\<forall>c \<in> set g. \<not> line_terminator c"
      and last: "\<not> sublist M (tl M @ takeWhile (\<lambda>c. \<not> line_terminator c) post)"
  shows "regex_match M (pre @ M @ g @ M @ post) = Some g"
  using regex_match_skip[OF ne first, of "g @ M @ post"] regex_match_greedy[OF ne M g last]
  by simp



section \<open>Properties of the dispatch loop\<close>

lemma promise_all_map_Inr: "promise_all (map Inr vs) = Inr vs"
  by (induction vs) simp_all

lemma promise_all_Inr_iff: "promise_all ps = Inr vs \<longleftrightarrow> ps = map Inr vs"
proof
  show "promise_all ps = Inr vs \<Longrightarrow> ps = map Inr vs"
  proof (induction ps arbitrary: vs)
    case Nil
    then show ?case by simp
  next
    case (Cons p ps)
    then show ?case
      by (cases p) (auto split: sum.splits)
  qed
qed (simp add: promise_all_map_Inr)

lemma run_batches_fulfilled:
  assumes "map (\<lambda>(j, item). fst (executeItem (E j) f c n item t)) (enumerate k (concat bs))
             = map Inr vs"
  shows "run_batches E f c n t bs k acc tr =
           (Inr (acc @ vs),
            tr @ concat (map (\<lambda>(j, item). snd (executeItem (E j) f c n item t))
                             (enumerate k (concat bs))))"
  using assms
proof (induction bs arbitrary: k acc tr vs)
  case Nil
  then show ?case by simp
next
  case (Cons b bs)
  let ?g = "\<lambda>(j, item). fst (executeItem (E j) f c n item t)"
  from Cons.prems have "map ?g (enumerate k b) @ map ?g (enumerate (k + length b) (concat bs))
      = map Inr vs"
    by (simp add: enumerate_append_eq)
  then obtain vs1 vs2 where vs: "vs = vs1 @ vs2"
    and h1: "map ?g (enumerate k b) = map Inr vs1"
    and h2: "map ?g (enumerate (k + length b) (concat bs)) = map Inr vs2"
    by (auto simp: append_eq_map_conv)
  have p: "promise_all (map fst (map (\<lambda>(j, item). executeItem (E j) f c n item t)
              (enumerate k b))) = Inr vs1"
    using h1 by (simp add: promise_all_Inr_iff case_prod_unfold comp_def)
  show ?case
    using Cons.IH[OF h2] p
    by (simp add: vs enumerate_append_eq case_prod_unfold comp_def)
qed

lemma run_batches_results:
  assumes "fst (run_batches E f c n t bs k acc tr) = Inr rs"
  shows "\<exists>vs. rs = acc @ vs \<and>
           map (\<lambda>(j, item). fst (executeItem (E j) f c n item t)) (enumerate k (concat bs))
             = map Inr vs"
  using assms
proof (induction bs arbitrary: k acc tr)
  case Nil
  then show ?case by simp
next
  case (Cons b bs)
  let ?tasks = "map (\<lambda>(j, item). executeItem (E j) f c n item t) (enumerate k b)"
  show ?case
  proof (cases "promise_all (map fst ?tasks)")
    case (Inl e)
    with Cons.prems show ?thesis by simp
  next
    case (Inr vs1)
    then have h1: "map fst ?tasks = map Inr vs1" by (simp add: promise_all_Inr_iff)
    from Cons.prems Inr have
      "fst (run_batches E f c n t bs (k + length b) (acc @ vs1)
              (tr @ concat (map snd ?tasks))) = Inr rs"
      by simp
    from Cons.IH[OF this] obtain vs2 where
      "rs = (acc @ vs1) @ vs2"
      "map (\<lambda>(j, item). fst (executeItem (E j) f c n item t))
           (enumerate (k + length b) (concat bs)) = map Inr vs2"
      by blast
    then show ?thesis
      using h1 by (intro exI[of _ "vs1 @ vs2"])
        (simp add: enumerate_append_eq case_prod_unfold comp_def)
  qed
qed

lemma run_batches_rejected:
  assumes "fst (run_batches E f c n t bs k acc tr) = Inl e"
  shows "\<exists>q < length bs.
           snd (run_batches E f c n t bs k acc tr) =
             tr @ concat (map (\<lambda>(j, item). snd (executeItem (E j) f c n item t))
                              (enumerate k (concat (take (Suc q) bs))))"
  using assms
proof (induction bs arbitrary: k acc tr)
  case Nil
  then show ?case by simp
next
  case (Cons b bs)
  let ?tasks = "map (\<lambda>(j, item). executeItem (E j) f c n item t) (enumerate k b)"
  let ?tr = "tr @ concat (map snd ?tasks)"
  show ?case
  proof (cases "promise_all (map fst ?tasks)")
    case (Inl e')
    then have "snd (run_batches E f c n t (b # bs) k acc tr) = ?tr" by simp
    then have "snd (run_batches E f c n t (b # bs) k acc tr) =
             tr @ concat (map (\<lambda>(j, item). snd (executeItem (E j) f c n item t))
                              (enumerate k (concat (take (Suc 0) (b # bs)))))"
      by (simp add: case_prod_unfold comp_def)
    then show ?thesis by blast
  next
    case (Inr vs)
    then have step: "run_batches E f c n t (b # bs) k acc tr =
        run_batches E f c n t bs (k + length b) (acc @ vs) ?tr"
      by simp
    with Cons.prems have "fst (run_batches E f c n t bs (k + length b) (acc @ vs) ?tr) = Inl e"
      by simp
    from Cons.IH[OF this] obtain q where q: "q < length bs"
      and s: "snd (run_batches E f c n t bs (k + length b) (acc @ vs) ?tr) =
             ?tr @ concat (map (\<lambda>(j, item). snd (executeItem (E j) f c n item t))
                              (enumerate (k + length b) (concat (take (Suc q) bs))))"
      by blast
    have "snd (run_batches E f c n t (b # bs) k acc tr) =
             tr @ concat (map (\<lambda>(j, item). snd (executeItem (E j) f c n item t))
                              (enumerate k (concat (take (Suc (Suc q)) (b # bs)))))"
      unfolding step s by (simp add: enumerate_append_eq case_prod_unfold comp_def)
    moreover have "Suc q < length (b # bs)" using q by simp
    ultimately show ?thesis by blast
  qed
qed

section \<open>Properties of the handlers\<close>

lemma executeItem_rejects:
  assumes "createCodeContext env (f @ ''-'' @ take 8 (randomUUID env)) = Inl e"
  shows "executeItem env f c n item t =
           (Inl e, [CreateCodeContext (f @ ''-'' @ take 8 (randomUUID env))])"
  using assms by (simp add: executeItem_def Let_def)

lemma executeItem_fulfils:
  assumes "createCodeContext env (f @ ''-'' @ take 8 (randomUUID env)) = Inr ctx"
  shows "\<exists>out. fst (executeItem env f c n item t) = Inr out"
  using assms by (simp add: executeItem_def Let_def)

lemma handleExecuteBatch_dispatch:
  assumes "truthy (function_id b)" "truthy (code b)" "truthy (function_name b)"
      and "items b = Some its" and "chunk its (or_default (max_containers b) 10) = Some batches"
  shows "handleExecuteBatch env (Some b) =
     Some (case run_batches (call env) (the (function_id b)) (the (code b))
                  (the (function_name b)) (or_default (timeout b) 300) batches 0 [] [] of
             (Inr allResults, trace) \<Rightarrow>
                (\<lparr>status = 200,
                  body = Batch \<lparr>results = allResults,
                    total_execution_time_ms = batch_endTime env - batch_startTime env,
                    batch_count = length batches,
                    max_containers = or_default (max_containers b) 10\<rparr>\<rparr>, trace)
           | (Inl e, trace) \<Rightarrow>
                (error_response 500 (message_or e ''Batch execution failed''),
                 trace @ [ConsoleError ''Batch execution error:'']))"
  using assms by (simp add: handleExecuteBatch_def Let_def split: prod.splits sum.splits)

lemma handleExecuteBatch_batch_body:
  assumes "truthy (function_id b)" "truthy (code b)" "truthy (function_name b)"
      and "items b = Some its" and "chunk its (or_default (max_containers b) 10) = Some batches"
      and "handleExecuteBatch env (Some b) = Some (resp, tr)"
      and "body resp = Batch r"
  shows "status resp = 200"
    and "fst (run_batches (call env) (the (function_id b)) (the (code b))
                  (the (function_name b)) (or_default (timeout b) 300) batches 0 [] [])
         = Inr (results r)"
    and "batch_count r = length batches"
    and "ExecuteBatchResponse.max_containers r = or_default (max_containers b) 10"
  using assms(6,7) unfolding handleExecuteBatch_dispatch[OF assms(1-5)]
  by (auto simp: error_response_def split: prod.splits sum.splits)

lemma batch_results_aligned:
  assumes "fst (run_batches E f c n t batches 0 [] []) = Inr rs" "concat batches = its"
  shows "length rs = length its"
    and "\<And>i. i < length its \<Longrightarrow> fst (executeItem (E i) f c n (its ! i) t) = Inr (rs ! i)"
proof -
  from run_batches_results[OF assms(1)] assms(2)
  have m: "map (\<lambda>(j, item). fst (executeItem (E j) f c n item t)) (enumerate 0 its)
             = map Inr rs"
    by auto
  from arg_cong[OF m, of length] show len: "length rs = length its" by simp
  show "fst (executeItem (E i) f c n (its ! i) t) = Inr (rs ! i)" if "i < length its" for i
    using arg_cong[OF m, of "\<lambda>l. l ! i"] that len by (simp add: nth_enumerate_eq)
qed

lemma batch_all_fulfilled:
  assumes "\<And>i. i < length its \<Longrightarrow> \<exists>out. fst (executeItem (E i) f c n (its ! i) t) = Inr out"
  shows "\<exists>vs. map (\<lambda>(j, item). fst (executeItem (E j) f c n item t)) (enumerate 0 its)
                = map Inr vs"
proof -
  let ?g = "\<lambda>(j, item). fst (executeItem (E j) f c n item t)"
  have "?g p = Inr (projr (?g p))" if "p \<in> set (enumerate 0 its)" for p
  proof -
    obtain j item where p: "p = (j, item)" by (cases p)
    with that have "j < length its" "item = its ! j"
      by (auto simp: in_set_enumerate_eq)
    with assms[of j] p show ?thesis by auto
  qed
  then have "map ?g (enumerate 0 its) = map Inr (map (\<lambda>p. projr (?g p)) (enumerate 0 its))"
    by (simp add: comp_def)
  then show ?thesis by blast
qed




lemma executeItem_error_marker:
  assumes ctx: "createCodeContext env (f @ ''-'' @ take 8 (randomUUID env)) = Inr ctx"
      and run: "runCode env (f @ ''-'' @ take 8 (randomUUID env)) (item_script c n item) ctx
                  (t * 1000) = Inr res"
      and nt: "\<not> truthy (SandboxResult.error res)"
      and mk: "sublist FLARE_ERROR (stderr_text res)"
  shows "\<exists>out. fst (executeItem env f c n item t) = Inr out \<and> \<not> success out \<and>
           error out = Some (case regex_match FLARE_ERROR (stderr_text res) of
                               Some g \<Rightarrow> g | None \<Rightarrow> ''Unknown error'')"
  using assms by (simp add: executeItem_def Let_def includes_str_sublist)

lemma handleExecute_error_marker:
  assumes fid: "ExecuteRequest.function_id b = Some f" "f \<noteq> []"
      and cod: "ExecuteRequest.code b = Some c" "c \<noteq> []"
      and fnm: "ExecuteRequest.function_name b = Some n" "n \<noteq> []"
      and ctx: "createCodeContext env (idFromName f) = Inr ctx"
      and run: "runCode env (idFromName f)
                  (call_script c n (or_empty (args b)) (or_empty (kwargs b))) ctx
                  (or_default (ExecuteRequest.timeout b) 300 * 1000) = Inr res"
      and nt: "\<not> truthy (SandboxResult.error res)"
      and mk: "sublist FLARE_ERROR (stderr_text res)"
  shows "\<exists>out. fst (handleExecute idFromName env (Some b))
                 = \<lparr>status = 500, body = Single out\<rparr> \<and> \<not> success out \<and>
           error out = Some (case regex_match FLARE_ERROR (stderr_text res) of
                               Some g \<Rightarrow> g | None \<Rightarrow> ''Unknown error'')"
  using assms by (simp add: handleExecute_def Let_def includes_str_sublist truthy_def)

lemma FLARE_ERROR_one_line:
  "FLARE_ERROR \<noteq> []" "\<forall>ch \<in> set FLARE_ERROR. \<not> line_terminator ch"
  by (simp_all add: FLARE_ERROR_def line_terminator_def)

lemma executeItem_trace:
  assumes "createCodeContext env (f @ ''-'' @ take 8 (randomUUID env)) = Inr ctx"
  shows "snd (executeItem env f c n item t) =
           [CreateCodeContext (f @ ''-'' @ take 8 (randomUUID env)),
            RunCode (f @ ''-'' @ take 8 (randomUUID env)) (item_script c n item) ctx (t * 1000),
            Destroy (f @ ''-'' @ take 8 (randomUUID env))] @
           (case destroy env (f @ ''-'' @ take 8 (randomUUID env)) of
              None \<Rightarrow> []
            | Some e \<Rightarrow> [ConsoleError (''Failed to destroy sandbox '' @
                            (f @ ''-'' @ take 8 (randomUUID env)) @ '':'')])"
  using assms by (simp add: executeItem_def Let_def split: option.split)

lemma handleExecuteBatch_fulfilled:
  assumes tr: "truthy (function_id b)" "truthy (code b)" "truthy (function_name b)"
      and its: "items b = Some its"
      and cap: "1 \<le> or_default (max_containers b) 10"
      and all: "\<And>i. i < length its \<Longrightarrow>
                  \<exists>out. fst (executeItem (call env i) (the (function_id b)) (the (code b))
                             (the (function_name b)) (its ! i) (or_default (timeout b) 300))
                        = Inr out"
  shows "\<exists>r. handleExecuteBatch env (Some b) =
           Some (\<lparr>status = 200, body = Batch r\<rparr>,
                 concat (map (\<lambda>(j, item). snd (executeItem (call env j) (the (function_id b))
                                (the (code b)) (the (function_name b)) item
                                (or_default (timeout b) 300)))
                             (enumerate 0 its)))"
proof -
  obtain batches where ch: "chunk its (or_default (max_containers b) 10) = Some batches"
    using chunk_closed[OF cap] by blast
  have cc: "concat batches = its" by (rule chunk_concat[OF cap ch])
  from batch_all_fulfilled[of its "call env", OF all]
  obtain vs where "map (\<lambda>(j, item). fst (executeItem (call env j) (the (function_id b))
                     (the (code b)) (the (function_name b)) item (or_default (timeout b) 300)))
                       (enumerate 0 (concat batches)) = map Inr vs"
    unfolding cc by blast
  from run_batches_fulfilled[OF this, of "[]" "[]"] show ?thesis
    unfolding handleExecuteBatch_dispatch[OF tr its ch, of env] cc by simp
qed

lemma executeItem_sandbox_id:
  assumes "fst (executeItem env f c n item t) = Inr out"
  shows "sandbox_id out = Some (f @ ''-'' @ take 8 (randomUUID env))"
  using assms
  by (auto simp: executeItem_def Let_def split: sum.splits if_splits option.splits)

lemma handleExecuteBatch_exists:
  assumes fid: "function_id b = Some f" "f \<noteq> []"
      and cod: "code b = Some c" "c \<noteq> []"
      and fnm: "function_name b = Some n" "n \<noteq> []"
      and its: "items b = Some its"
      and cap: "1 \<le> or_default (max_containers b) 10"
      and ctx: "\<forall>i < length its. \<exists>ctx.
                  createCodeContext (call env i) (f @ ''-'' @ take 8 (randomUUID (call env i)))
                    = Inr ctx"
  shows "\<exists>r tr. handleExecuteBatch env (Some b) = Some (\<lparr>status = 200, body = Batch r\<rparr>, tr)"
proof -
  have tr: "truthy (function_id b)" "truthy (code b)" "truthy (function_name b)"
    using fid cod fnm by (simp_all add: truthy_def)
  have all: "\<exists>out. fst (executeItem (call env i) (the (function_id b)) (the (code b))
                (the (function_name b)) (its ! i) (or_default (timeout b) 300)) = Inr out"
    if "i < length its" for i
  proof -
    from ctx that obtain cx where
      "createCodeContext (call env i) (f @ ''-'' @ take 8 (randomUUID (call env i))) = Inr cx"
      by blast
    from executeItem_fulfils[OF this] show ?thesis using fid cod fnm by simp
  qed
  from handleExecuteBatch_fulfilled[OF tr its cap all] show ?thesis by blast
qed

lemma executeItem_outcome_after_context:
  assumes ctx: "createCodeContext env (f @ ''-'' @ take 8 (randomUUID env)) = Inr ctx"
  shows "\<exists>out. fst (executeItem env f c n item t) = Inr out \<and>
           started_at out = Some (startedAt_now env) \<and>
           completed_at out = Some (completedAt_now env) \<and>
           execution_time_ms out = Some (endTime_now env - startTime_now env) \<and>
           (\<forall>e. runCode env (f @ ''-'' @ take 8 (randomUUID env)) (item_script c n item) ctx
                   (t * 1000) = Inl e \<longrightarrow>
                \<not> success out \<and> error out = Some (message_or e ''Execution failed''))"
  using assms by (auto simp: executeItem_def Let_def split: sum.splits option.splits)

lemma executeItem_destroys_once:
  assumes ctx: "createCodeContext env (f @ ''-'' @ take 8 (randomUUID env)) = Inr ctx"
  shows "filter (\<lambda>e. case e of Destroy s \<Rightarrow> True | _ \<Rightarrow> False)
           (snd (executeItem env f c n item t))
         = [Destroy (f @ ''-'' @ take 8 (randomUUID env))]"
    and "fst (executeItem (env\<lparr>destroy := d\<rparr>) f c n item t) = fst (executeItem env f c n item t)"
  using assms by (auto simp: executeItem_def Let_def split: sum.splits option.splits)

lemma chunk_loop_stuck:
  assumes "chunk_loop array sz i chunks = Some y"
  shows "\<not> (sz \<le> 0 \<and> i < int (length array))"
proof (rule chunk_loop.raw_induct
    [where P = "\<lambda>array sz i chunks y. \<not> (sz \<le> 0 \<and> i < int (length array))", OF _ assms])
  fix loop :: "'a list \<Rightarrow> int \<Rightarrow> int \<Rightarrow> 'a list list \<Rightarrow> 'a list list option"
    and array sz i chunks y
  assume IH: "\<And>array sz i chunks y. loop array sz i chunks = Some y \<Longrightarrow>
                \<not> (sz \<le> 0 \<and> i < int (length array))"
    and step: "(if i < int (length array)
                then loop array sz (i + sz) (chunks @ [slice array i (i + sz)])
                else Some chunks) = Some y"
  show "\<not> (sz \<le> 0 \<and> i < int (length array))"
  proof
    assume a: "sz \<le> 0 \<and> i < int (length array)"
    with step have "loop array sz (i + sz) (chunks @ [slice array i (i + sz)]) = Some y"
      by simp
    from IH[OF this] a show False by simp
  qed
qed

lemma negative_cap_does_not_return:
  assumes "truthy (function_id b)" "truthy (code b)" "truthy (function_name b)"
      and "items b = Some its" "its \<noteq> []"
      and "max_containers b = Some m" "m < 0"
  shows "handleExecuteBatch env (Some b) = None"
proof -
  have "chunk its m = None"
    using chunk_loop_stuck[of its m 0 "[]"] assms(5,7)
    by (cases "chunk its m") (auto simp: chunk_def)
  then show ?thesis
    using assms by (simp add: handleExecuteBatch_def or_default_def Let_def)
qed

lemma batch_aborts_on_context_failure:
  "map_option (\<lambda>(resp, tr). (status resp, body resp))
     (handleExecuteBatch (fixture_env\<lparr>call := (\<lambda>k. if k = 1 then unreachable_session
                                                  else fixture_call k)\<rparr>)
        (Some fixture_request))
   = Some (500, Single \<lparr>success = False, result = None, stdout = None, stderr = None,
                        error = Some ''container failed to start'',
                        execution_time_ms = None, sandbox_id = None,
                        started_at = None, completed_at = None\<rparr>)"
  by code_simp

lemmas fixture_defs =
  fixture_request_def fixture_env_def fixture_call_def fixture_output_def fixture_uuid_def
  sample_session_def

lemmas decode_defs =
  executeItem_def Let_def truthy_def stderr_text_def stdout_text_def joined_def
  FLARE_ERROR_def FLARE_RESULT_def match_at_def line_terminator_def message_or_def

lemma sample_runs:
  "createCodeContext (sample_session u r) (''double'' @ ''-'' @ take 8 (randomUUID (sample_session u r)))
     = Inr ''ctx''"
  "runCode (sample_session u r) (''double'' @ ''-'' @ take 8 (randomUUID (sample_session u r)))
     (item_script ''def double(x): return 2 * x'' ''double'' ''8001'') ''ctx'' (300 * 1000) = Inr r"
  "ExecuteRequest.function_id sample_call = Some ''double''" "''double'' \<noteq> []"
  "ExecuteRequest.code sample_call = Some ''def double(x): return 2 * x''"
  "''def double(x): return 2 * x'' \<noteq> []"
  "ExecuteRequest.function_name sample_call = Some ''double''" "''double'' \<noteq> []"
  "createCodeContext (sample_session u r) ((\<lambda>name. ''id-'' @ name) ''double'') = Inr ''ctx''"
  "runCode (sample_session u r) ((\<lambda>name. ''id-'' @ name) ''double'')
     (call_script ''def double(x): return 2 * x'' ''double''
        (or_empty (args sample_call)) (or_empty (kwargs sample_call)))
     ''ctx'' (or_default (ExecuteRequest.timeout sample_call) 300 * 1000) = Inr r"
  by (simp_all add: sample_session_def sample_call_def)

section \<open>Order preservation\<close>

text \<open>
  C1. For a batch request with a non-empty \<open>items\<close> sequence and an effective cap
  \<open>max_containers || 10\<close> of at least 1: chunking returns consecutive rounds whose
  concatenation is \<open>items\<close>, the handler returns, and in a batch response the
  i-th entry of \<open>results\<close> is the outcome of \<open>executeItem\<close> on the i-th item
  (run with the platform's answers to the i-th call), for every i. The batch response is
  returned, with status 200, whenever every call of \<open>executeItem\<close> settles to an
  outcome.
\<close>

theorem order_preservation:
  assumes fid: "function_id b = Some f" "f \<noteq> []"
      and cod: "code b = Some c" "c \<noteq> []"
      and fnm: "function_name b = Some n" "n \<noteq> []"
      and its: "items b = Some its" "its \<noteq> []"
      and cap: "1 \<le> or_default (max_containers b) 10"
  shows "\<exists>batches resp tr.
           chunk its (or_default (max_containers b) 10) = Some batches \<and>
           concat batches = its \<and>
           handleExecuteBatch env (Some b) = Some (resp, tr) \<and>
           (\<forall>r. body resp = Batch r \<longrightarrow>
                 length (results r) = length its \<and>
                 (\<forall>i < length its.
                     fst (executeItem (call env i) f c n (its ! i) (or_default (timeout b) 300))
                       = Inr (results r ! i))) \<and>
           ((\<forall>i < length its.
                \<exists>out. fst (executeItem (call env i) f c n (its ! i)
                              (or_default (timeout b) 300)) = Inr out)
              \<longrightarrow> status resp = 200 \<and> (\<exists>r. body resp = Batch r))"
proof -
  let ?C = "or_default (max_containers b) 10"
  let ?t = "or_default (timeout b) 300"
  obtain batches where ch: "chunk its ?C = Some batches"
    using chunk_closed[OF cap] by blast
  have cc: "concat batches = its" by (rule chunk_concat[OF cap ch])
  have tr: "truthy (function_id b)" "truthy (code b)" "truthy (function_name b)"
    using fid cod fnm by (simp_all add: truthy_def)
  note disp = handleExecuteBatch_dispatch[OF tr its(1) ch, of env]
  have "\<exists>x. handleExecuteBatch env (Some b) = Some x"
    unfolding disp by simp
  then obtain resp tr where h: "handleExecuteBatch env (Some b) = Some (resp, tr)"
    by force
  have aligned: "length (results r) = length its \<and>
        (\<forall>i < length its. fst (executeItem (call env i) f c n (its ! i) ?t) = Inr (results r ! i))"
    if "body resp = Batch r" for r
  proof -
    have "fst (run_batches (call env) f c n ?t batches 0 [] []) = Inr (results r)"
      using handleExecuteBatch_batch_body(2)[OF tr its(1) ch h that] fid cod fnm by simp
    from batch_results_aligned[OF this cc] show ?thesis by blast
  qed
  have ok: "status resp = 200 \<and> (\<exists>r. body resp = Batch r)"
    if all: "\<forall>i < length its. \<exists>out. fst (executeItem (call env i) f c n (its ! i) ?t) = Inr out"
  proof -
    from batch_all_fulfilled[of its "call env" f c n ?t] all
    obtain vs where "map (\<lambda>(j, item). fst (executeItem (call env j) f c n item ?t))
                       (enumerate 0 (concat batches)) = map Inr vs"
      unfolding cc by auto
    from run_batches_fulfilled[OF this, of "[]" "[]"] h show ?thesis
      unfolding disp using fid cod fnm by auto
  qed
  show ?thesis using ch cc h aligned ok by blast
qed

theorem order_preservation_witness:
  "\<exists>r tr. handleExecuteBatch fixture_env (Some fixture_request)
             = Some (\<lparr>status = 200, body = Batch r\<rparr>, tr) \<and>
          length (results r) = 3 \<and>
          result (results r ! 0) = Some ''8002'' \<and>
          error (results r ! 1) = Some ''bad'' \<and>
          result (results r ! 2) = Some ''8006''"
proof -
  let ?its = "[''8001'', ''8002'', ''8003'']"
  let ?c = "''def double(x): return 2 * x''"
  let ?t = "or_default (timeout fixture_request) 300"
  have hyps: "function_id fixture_request = Some ''double''" "''double'' \<noteq> []"
    "code fixture_request = Some ?c" "?c \<noteq> []"
    "function_name fixture_request = Some ''double''" "''double'' \<noteq> []"
    "items fixture_request = Some ?its" "?its \<noteq> []"
    "1 \<le> or_default (max_containers fixture_request) 10"
    by (simp_all add: fixture_request_def or_default_def)
  from order_preservation[OF hyps, of fixture_env]
  obtain resp tr where
    h: "handleExecuteBatch fixture_env (Some fixture_request) = Some (resp, tr)"
    and al: "\<forall>r. body resp = Batch r \<longrightarrow> length (results r) = length ?its \<and>
          (\<forall>i < length ?its. fst (executeItem (call fixture_env i) ''double'' ?c ''double''
                                    (?its ! i) ?t) = Inr (results r ! i))"
    and ok: "(\<forall>i < length ?its. \<exists>out. fst (executeItem (call fixture_env i) ''double'' ?c
                                    ''double'' (?its ! i) ?t) = Inr out)
            \<longrightarrow> status resp = 200 \<and> (\<exists>r. body resp = Batch r)"
    by blast
  have "\<exists>out. fst (executeItem (call fixture_env i) ''double'' ?c ''double'' (?its ! i) ?t)
          = Inr out" for i
    by (rule executeItem_fulfils[where ctx="''ctx''"]) (simp add: fixture_env_def fixture_call_def sample_session_def)
  with ok obtain r where st: "status resp = 200" and r: "body resp = Batch r" by blast
  have resp: "resp = \<lparr>status = 200, body = Batch r\<rparr>" using st r by (cases resp) simp
  from al r have len: "length (results r) = 3"
    and nth: "\<And>i. i < 3 \<Longrightarrow>
        fst (executeItem (call fixture_env i) ''double'' ?c ''double'' (?its ! i) ?t)
          = Inr (results r ! i)"
    by simp_all
  note e0 = nth[of 0] and e1 = nth[of 1] and e2 = nth[of 2]
  have "result (results r ! 0) = Some ''8002''"
    using e0[symmetric] by (simp add: fixture_defs decode_defs or_default_def)
  moreover have "error (results r ! 1) = Some ''bad''"
    using e1[symmetric] by (simp add: fixture_defs decode_defs or_default_def)
  moreover have "result (results r ! 2) = Some ''8006''"
    using e2[symmetric] by (simp add: fixture_defs decode_defs or_default_def)
  ultimately show ?thesis using h resp len by blast
qed

section \<open>Round bounding\<close>

text \<open>
  C2. For a batch request with N items and an effective cap C of at least 1: chunking
  returns \<open>\<lceil>N / C\<rceil>\<close> rounds, every round but the last has exactly C items, no round
  has more than C, the last round has \<open>N mod C\<close> items when that is not zero, and the
  \<open>batch_count\<close> of a batch response is \<open>\<lceil>N / C\<rceil>\<close> (its \<open>max_containers\<close> is C).
\<close>

theorem round_bounding:
  assumes fid: "function_id b = Some f" "f \<noteq> []"
      and cod: "code b = Some c" "c \<noteq> []"
      and fnm: "function_name b = Some n" "n \<noteq> []"
      and its: "items b = Some its"
      and cap: "C = or_default (max_containers b) 10" "1 \<le> C"
  shows "\<exists>batches resp tr.
           chunk its C = Some batches \<and>
           int (length batches) = \<lceil>real (length its) / real_of_int C\<rceil> \<and>
           (\<forall>j. Suc j < length batches \<longrightarrow> int (length (batches ! j)) = C) \<and>
           (\<forall>j < length batches. int (length (batches ! j)) \<le> C) \<and>
           (int (length its) mod C \<noteq> 0 \<longrightarrow>
              int (length (last batches)) = int (length its) mod C) \<and>
           handleExecuteBatch env (Some b) = Some (resp, tr) \<and>
           (\<forall>r. body resp = Batch r \<longrightarrow>
                 int (batch_count r) = \<lceil>real (length its) / real_of_int C\<rceil> \<and>
                 ExecuteBatchResponse.max_containers r = C)"
proof -
  obtain batches where ch: "chunk its C = Some batches"
    using chunk_closed[OF cap(2)] by blast
  have tr: "truthy (function_id b)" "truthy (code b)" "truthy (function_name b)"
    using fid cod fnm by (simp_all add: truthy_def)
  have ch': "chunk its (or_default (max_containers b) 10) = Some batches"
    using ch cap(1) by simp
  have nC: "int (nat C) = C" using cap(2) by simp
  have len: "int (length batches) = \<lceil>real (length its) / real_of_int C\<rceil>"
    using chunk_rounds(1)[OF cap(2) ch] rounds_ceiling[OF cap(2), of "length its"] by simp
  have full: "int (length (batches ! j)) = C" if "Suc j < length batches" for j
    using chunk_rounds(2)[OF cap(2) ch that] nC by simp
  have bound: "int (length (batches ! j)) \<le> C" if "j < length batches" for j
    using chunk_rounds(3)[OF cap(2) ch that] cap(2) by linarith
  have rest: "int (length (last batches)) = int (length its) mod C"
    if "int (length its) mod C \<noteq> 0"
  proof -
    have m: "int (length its mod nat C) = int (length its) mod C"
      using nC by (simp add: zmod_int)
    then have "length its mod nat C \<noteq> 0" using that by auto
    from chunk_rounds(4)[OF cap(2) ch this] m show ?thesis by simp
  qed
  have "\<exists>x. handleExecuteBatch env (Some b) = Some x"
    unfolding handleExecuteBatch_dispatch[OF tr its ch', of env] by simp
  then obtain resp tr where h: "handleExecuteBatch env (Some b) = Some (resp, tr)"
    by force
  have rep: "int (batch_count r) = \<lceil>real (length its) / real_of_int C\<rceil> \<and>
             ExecuteBatchResponse.max_containers r = C" if "body resp = Batch r" for r
    using handleExecuteBatch_batch_body(3,4)[OF tr its ch' h that] len cap(1) by simp
  show ?thesis
  proof (intro exI conjI allI impI)
    show "chunk its C = Some batches" by (rule ch)
    show "int (length batches) = \<lceil>real (length its) / real_of_int C\<rceil>" by (rule len)
    show "handleExecuteBatch env (Some b) = Some (resp, tr)" by (rule h)
  qed (use full bound rest rep in auto)
qed

theorem round_bounding_witness:
  "chunk [''8001'', ''8002'', ''8003''] 2 = Some [[''8001'', ''8002''], [''8003'']] \<and>
   (\<exists>r tr. handleExecuteBatch fixture_env (Some fixture_request)
              = Some (\<lparr>status = 200, body = Batch r\<rparr>, tr) \<and>
            batch_count r = 2 \<and> ExecuteBatchResponse.max_containers r = 2)"
proof -
  let ?its = "[''8001'', ''8002'', ''8003'']"
  let ?c = "''def double(x): return 2 * x''"
  have hyps: "function_id fixture_request = Some ''double''" "''double'' \<noteq> []"
    "code fixture_request = Some ?c" "?c \<noteq> []"
    "function_name fixture_request = Some ''double''" "''double'' \<noteq> []"
    "items fixture_request = Some ?its"
    "(2::int) = or_default (max_containers fixture_request) 10" "(1::int) \<le> 2"
    by (simp_all add: fixture_request_def or_default_def)
  from round_bounding[OF hyps, of fixture_env]
  obtain resp tr where
    h: "handleExecuteBatch fixture_env (Some fixture_request) = Some (resp, tr)"
    and rep: "\<forall>r. body resp = Batch r \<longrightarrow>
                int (batch_count r) = \<lceil>real (length ?its) / real_of_int 2\<rceil> \<and>
                ExecuteBatchResponse.max_containers r = 2"
    by blast
  have c: "chunk ?its 2 = Some [[''8001'', ''8002''], [''8003'']]"
    by code_simp
  have "map_option (\<lambda>(resp, tr). status resp)
          (handleExecuteBatch fixture_env (Some fixture_request)) = Some 200"
    by code_simp
  with h have st: "status resp = 200" by simp
  have "map_option (\<lambda>(resp, tr). case body resp of Batch r \<Rightarrow> True | Single x \<Rightarrow> False)
          (handleExecuteBatch fixture_env (Some fixture_request)) = Some True"
    by code_simp
  with h obtain r where r: "body resp = Batch r" by (cases "body resp") auto
  have resp: "resp = \<lparr>status = 200, body = Batch r\<rparr>" using st r by (cases resp) simp
  have "batch_count r = 2 \<and> ExecuteBatchResponse.max_containers r = 2"
    using rep r by simp
  then show ?thesis using c h resp by blast
qed

section \<open>Sentinel precedence\<close>



section \<open>The extracted error message\<close>

text \<open>
  C7, as the code has it. The claim reads the pattern \<open>/__FLARE_ERROR__(.*)__FLARE_ERROR__/\<close>
  as non-greedy; \<open>.*\<close> is greedy. When the runtime reports no error and stderr holds,
  after a text without the marker, the error marker, a message \<open>m\<close> within one line
  and the marker again, with no further marker closing later on that line, the outcome
  is a failure whose error is \<open>m\<close>, in \<open>executeItem\<close> and in \<open>handleExecute\<close>. So
  for a line \<open>__FLARE_ERROR__m1__FLARE_ERROR__ ... __FLARE_ERROR__m2__FLARE_ERROR__\<close> the
  message is the whole span from the first opening marker to the last closing marker of
  the line, not \<open>m1\<close>.
\<close>

theorem greedy_error_message:
  assumes ctx: "createCodeContext env (f @ ''-'' @ take 8 (randomUUID env)) = Inr ctx"
      and run: "runCode env (f @ ''-'' @ take 8 (randomUUID env)) (item_script c n item) ctx
                  (t * 1000) = Inr res"
      and fid: "ExecuteRequest.function_id b = Some f'" "f' \<noteq> []"
      and cod: "ExecuteRequest.code b = Some c'" "c' \<noteq> []"
      and fnm: "ExecuteRequest.function_name b = Some n'" "n' \<noteq> []"
      and ctx': "createCodeContext env' (idFromName f') = Inr ctx'"
      and run': "runCode env' (idFromName f')
                  (call_script c' n' (or_empty (args b)) (or_empty (kwargs b))) ctx'
                  (or_default (ExecuteRequest.timeout b) 300 * 1000) = Inr res"
      and nt: "\<not> truthy (SandboxResult.error res)"
      and shape: "stderr_text res = pre @ FLARE_ERROR @ m @ FLARE_ERROR @ post"
      and first: "\<not> sublist FLARE_ERROR (pre @ butlast FLARE_ERROR)"
      and line: "\<forall>ch \<in> set m. \<not> line_terminator ch"
      and last: "\<not> sublist FLARE_ERROR
                     (tl FLARE_ERROR @ takeWhile (\<lambda>ch. \<not> line_terminator ch) post)"
  shows "(\<exists>out. fst (executeItem env f c n item t) = Inr out \<and>
                \<not> success out \<and> error out = Some m) \<and>
         (\<exists>out. fst (handleExecute idFromName env' (Some b))
                  = \<lparr>status = 500, body = Single out\<rparr> \<and>
                \<not> success out \<and> error out = Some m)"
proof -
  have g: "regex_match FLARE_ERROR (stderr_text res) = Some m"
    unfolding shape by (rule regex_match_first_greedy[OF FLARE_ERROR_one_line first line last])
  have mk: "sublist FLARE_ERROR (stderr_text res)"
    unfolding shape by (rule sublist_appendI)
  show ?thesis
    using executeItem_error_marker[OF ctx run nt mk]
      handleExecute_error_marker[where idFromName = idFromName, OF fid cod fnm ctx' run' nt mk]
    unfolding g by simp
qed

theorem greedy_error_message_witness:
  "(\<exists>out. fst (executeItem (sample_session ''0a1b2c3d-1111-4111-8111-111111111111''
                  two_pairs_output) ''double'' ''def double(x): return 2 * x''
                  ''double'' ''8001'' 300) = Inr out \<and>
          \<not> success out \<and>
          error out = Some (''first'' @ FLARE_ERROR @ '' and '' @ FLARE_ERROR @ ''second'')) \<and>
   (\<exists>out. fst (handleExecute (\<lambda>name. ''id-'' @ name) (sample_session [] two_pairs_output)
                  (Some sample_call)) = \<lparr>status = 500, body = Single out\<rparr> \<and>
          \<not> success out \<and>
          error out = Some (''first'' @ FLARE_ERROR @ '' and '' @ FLARE_ERROR @ ''second''))"
proof -
  let ?m = "''first'' @ FLARE_ERROR @ '' and '' @ FLARE_ERROR @ ''second''"
  let ?pre = "''warning: retrying'' @ nl"
  let ?post = "nl @ ''Traceback (most recent call last):''"
  have nt: "\<not> truthy (SandboxResult.error two_pairs_output)"
    by (simp add: two_pairs_output_def truthy_def)
  have shape: "stderr_text two_pairs_output = ?pre @ FLARE_ERROR @ ?m @ FLARE_ERROR @ ?post"
    by (simp add: two_pairs_output_def decode_defs nl_def)
  have first: "\<not> sublist FLARE_ERROR (?pre @ butlast FLARE_ERROR)"
    unfolding includes_str_sublist[symmetric] by (simp add: FLARE_ERROR_def nl_def)
  have line: "\<forall>ch \<in> set ?m. \<not> line_terminator ch"
    by (simp add: FLARE_ERROR_def line_terminator_def)
  have last: "\<not> sublist FLARE_ERROR
                 (tl FLARE_ERROR @ takeWhile (\<lambda>ch. \<not> line_terminator ch) ?post)"
    unfolding includes_str_sublist[symmetric]
    by (simp add: FLARE_ERROR_def nl_def line_terminator_def)
  show ?thesis
    by (rule greedy_error_message[where idFromName = "\<lambda>name. ''id-'' @ name"
          and f = "''double''" and f' = "''double''",
          OF sample_runs(1,2) sample_runs(3-10) nt shape first line last])
qed

text \<open>
  The claim as stated fails: with the stderr line
  \<open>__FLARE_ERROR__first__FLARE_ERROR__ and __FLARE_ERROR__second__FLARE_ERROR__\<close> the
  reported error is \<open>first__FLARE_ERROR__ and __FLARE_ERROR__second\<close>, not \<open>first\<close>.
\<close>

theorem first_match_counterexample:
  "\<exists>out. fst (executeItem (sample_session ''0a1b2c3d-1111-4111-8111-111111111111''
                  two_pairs_output) ''double'' ''def double(x): return 2 * x''
                  ''double'' ''8001'' 300) = Inr out \<and>
         stderr out = Some (''warning: retrying'' @ nl @
                            FLARE_ERROR @ ''first'' @ FLARE_ERROR @ '' and '' @
                            FLARE_ERROR @ ''second'' @ FLARE_ERROR @ nl @
                            ''Traceback (most recent call last):'') \<and>
         error out = Some ''first__FLARE_ERROR__ and __FLARE_ERROR__second'' \<and>
         error out \<noteq> Some ''first''"
  by (simp add: sample_session_def two_pairs_output_def decode_defs nl_def)

section \<open>The fallback message\<close>

text \<open>
  C10. When the runtime reports no error and the captured stderr contains the token
  \<open>__FLARE_ERROR__\<close> but no well-formed sentinel (no marker, message within one line,
  marker), the outcome is a failure whose error is the literal \<open>Unknown error\<close>, in
  \<open>executeItem\<close> and in \<open>handleExecute\<close> (there with status 500): neither the
  protocol-extraction error nor a partial message.
\<close>

theorem unknown_error_fallback:
  assumes ctx: "createCodeContext env (f @ ''-'' @ take 8 (randomUUID env)) = Inr ctx"
      and run: "runCode env (f @ ''-'' @ take 8 (randomUUID env)) (item_script c n item) ctx
                  (t * 1000) = Inr res"
      and fid: "ExecuteRequest.function_id b = Some f'" "f' \<noteq> []"
      and cod: "ExecuteRequest.code b = Some c'" "c' \<noteq> []"
      and fnm: "ExecuteRequest.function_name b = Some n'" "n' \<noteq> []"
      and ctx': "createCodeContext env' (idFromName f') = Inr ctx'"
      and run': "runCode env' (idFromName f')
                  (call_script c' n' (or_empty (args b)) (or_empty (kwargs b))) ctx'
                  (or_default (ExecuteRequest.timeout b) 300 * 1000) = Inr res"
      and nt: "\<not> truthy (SandboxResult.error res)"
      and mk: "sublist FLARE_ERROR (stderr_text res)"
      and nomatch: "\<not> has_sentinel FLARE_ERROR (stderr_text res)"
  shows "(\<exists>out. fst (executeItem env f c n item t) = Inr out \<and>
                \<not> success out \<and> error out = Some ''Unknown error'') \<and>
         (\<exists>out. fst (handleExecute idFromName env' (Some b))
                  = \<lparr>status = 500, body = Single out\<rparr> \<and>
                \<not> success out \<and> error out = Some ''Unknown error'')"
proof -
  have g: "regex_match FLARE_ERROR (stderr_text res) = None"
    using nomatch by (simp add: regex_match_None_iff)
  show ?thesis
    using executeItem_error_marker[OF ctx run nt mk]
      handleExecute_error_marker[where idFromName = idFromName, OF fid cod fnm ctx' run' nt mk]
    unfolding g by simp
qed

theorem unknown_error_fallback_witness:
  "sublist FLARE_ERROR (stderr_text split_output) \<and>
   regex_match FLARE_ERROR (stderr_text split_output) = None \<and>
   (\<exists>out. fst (executeItem (sample_session ''0a1b2c3d-1111-4111-8111-111111111111''
                  split_output) ''double'' ''def double(x): return 2 * x''
                  ''double'' ''8001'' 300) = Inr out \<and>
          \<not> success out \<and> error out = Some ''Unknown error'') \<and>
   (\<exists>out. fst (handleExecute (\<lambda>name. ''id-'' @ name) (sample_session [] split_output)
                  (Some sample_call)) = \<lparr>status = 500, body = Single out\<rparr> \<and>
          \<not> success out \<and> error out = Some ''Unknown error'')"
proof -
  have nt: "\<not> truthy (SandboxResult.error split_output)"
    by (simp add: split_output_def truthy_def)
  have mk: "sublist FLARE_ERROR (stderr_text split_output)"
    unfolding includes_str_sublist[symmetric] by (simp add: split_output_def decode_defs)
  have none: "regex_match FLARE_ERROR (stderr_text split_output) = None"
    by (simp add: split_output_def decode_defs)
  then have nomatch: "\<not> has_sentinel FLARE_ERROR (stderr_text split_output)"
    by (simp add: regex_match_None_iff)
  show ?thesis
    using mk none unknown_error_fallback[where idFromName = "\<lambda>name. ''id-'' @ name"
          and f = "''double''" and f' = "''double''",
          OF sample_runs(1,2) sample_runs(3-10) nt mk nomatch]
    by blast
qed

section \<open>Batch isolation\<close>

text \<open>
  C3. The claim: one item's failure never cancels or skips the other items of its round or
  of later rounds, and the batch is answered with status 200 however many items fail. The
  code keeps that for a failure inside an item's run, but not for an item whose code
  context cannot be created: \<open>executeItem\<close> then rejects (the context is created before
  its \<open>try\<close>), \<open>Promise.all\<close> rejects, and the \<open>catch\<close> of the handler answers.
  For an effective cap of at least 1 and an item whose \<open>createCodeContext\<close> rejects,
  the answer has status 500 and no results, and the calls issued are those of the items
  of the rounds up to some round \<open>q\<close> and no others: the items of later rounds are
  never dispatched.
\<close>

theorem batch_abort:
  assumes fid: "function_id b = Some f" "f \<noteq> []"
      and cod: "code b = Some c" "c \<noteq> []"
      and fnm: "function_name b = Some n" "n \<noteq> []"
      and its: "items b = Some its"
      and cap: "1 \<le> or_default (max_containers b) 10"
      and i: "i < length its"
      and rej: "createCodeContext (call env i) (f @ ''-'' @ take 8 (randomUUID (call env i)))
                  = Inl e"
  shows "\<exists>batches q resp tr.
           chunk its (or_default (max_containers b) 10) = Some batches \<and>
           concat batches = its \<and> q < length batches \<and>
           handleExecuteBatch env (Some b) = Some (resp, tr) \<and>
           status resp = 500 \<and>
           (\<exists>x. body resp = Single x \<and> \<not> success x \<and> result x = None) \<and>
           tr = concat (map (\<lambda>(j, item). snd (executeItem (call env j) f c n item
                                               (or_default (timeout b) 300)))
                            (enumerate 0 (concat (take (Suc q) batches))))
                @ [ConsoleError ''Batch execution error:'']"
proof -
  let ?t = "or_default (timeout b) 300"
  obtain batches where ch: "chunk its (or_default (max_containers b) 10) = Some batches"
    using chunk_closed[OF cap] by blast
  have cc: "concat batches = its" by (rule chunk_concat[OF cap ch])
  have tr: "truthy (function_id b)" "truthy (code b)" "truthy (function_name b)"
    using fid cod fnm by (simp_all add: truthy_def)
  note disp = handleExecuteBatch_dispatch[OF tr its ch, of env]
  let ?run = "run_batches (call env) f c n ?t batches 0 [] []"
  have "fst (executeItem (call env i) f c n (its ! i) ?t) = Inl e"
    using executeItem_rejects[OF rej] by simp
  then have "fst ?run \<noteq> Inr rs" for rs
    using batch_results_aligned(2)[OF _ cc i, of "call env" f c n ?t rs] by auto
  then obtain e' where e': "fst ?run = Inl e'" by (cases "fst ?run") auto
  from run_batches_rejected[OF e'] obtain q where q: "q < length batches"
    and s: "snd ?run = concat (map (\<lambda>(j, item). snd (executeItem (call env j) f c n item ?t))
                                  (enumerate 0 (concat (take (Suc q) batches))))"
    by auto
  obtain tr0 where run: "?run = (Inl e', tr0)" using e' by (cases ?run) simp
  have h: "handleExecuteBatch env (Some b) =
             Some (error_response 500 (message_or e' ''Batch execution failed''),
                   snd ?run @ [ConsoleError ''Batch execution error:''])"
    unfolding disp using fid cod fnm by (simp add: run)
  show ?thesis
    by (intro exI[of _ batches] exI[of _ q]
          exI[of _ "error_response 500 (message_or e' ''Batch execution failed'')"]
          exI[of _ "snd ?run @ [ConsoleError ''Batch execution error:'']"] conjI ch cc q h)
       (simp_all add: error_response_def s)
qed

theorem batch_abort_witness:
  "\<exists>resp tr. handleExecuteBatch aborting_env (Some fixture_request) = Some (resp, tr) \<and>
     status resp = 500 \<and>
     (\<exists>x. body resp = Single x \<and> \<not> success x \<and> result x = None) \<and>
     created_ids tr = [''double-0a1b2c3d'', ''double-4e5f6a7b''] \<and>
     run_ids tr = [''double-0a1b2c3d'']"
proof -
  let ?its = "[''8001'', ''8002'', ''8003'']"
  let ?c = "''def double(x): return 2 * x''"
  have hyps: "function_id fixture_request = Some ''double''" "''double'' \<noteq> []"
    "code fixture_request = Some ?c" "?c \<noteq> []"
    "function_name fixture_request = Some ''double''" "''double'' \<noteq> []"
    "items fixture_request = Some ?its"
    "1 \<le> or_default (max_containers fixture_request) 10"
    "1 < length ?its"
    "createCodeContext (call aborting_env 1)
       (''double'' @ ''-'' @ take 8 (randomUUID (call aborting_env 1)))
       = Inl (Error ''container failed to start'')"
    by (simp_all add: fixture_request_def or_default_def aborting_env_def fixture_env_def)
  from batch_abort[OF hyps] obtain resp tr where
    h: "handleExecuteBatch aborting_env (Some fixture_request) = Some (resp, tr)"
    and st: "status resp = 500"
    and bd: "\<exists>x. body resp = Single x \<and> \<not> success x \<and> result x = None"
    by blast
  have "map_option (\<lambda>(resp, tr). created_ids tr)
          (handleExecuteBatch aborting_env (Some fixture_request))
        = Some [''double-0a1b2c3d'', ''double-4e5f6a7b'']"
    by code_simp
  with h have cr: "created_ids tr = [''double-0a1b2c3d'', ''double-4e5f6a7b'']" by simp
  have "map_option (\<lambda>(resp, tr). run_ids tr)
          (handleExecuteBatch aborting_env (Some fixture_request))
        = Some [''double-0a1b2c3d'']"
    by code_simp
  with h have rn: "run_ids tr = [''double-0a1b2c3d'']" by simp
  show ?thesis by (intro exI[of _ resp] exI[of _ tr] conjI h st bd cr rn)
qed

text \<open>
  What holds of isolation: when every item of the batch gets its code context, so that an
  item can fail only in its run (the function raises, the runtime reports an error or
  rejects, the result sentinel is missing), the handler answers with status 200 and a
  batch body, \<open>results\<close> has the outcome of every item in order, and the trace holds a
  \<open>runCode\<close> call for every item. The sample has four failing items and one success.
\<close>

lemma batch_isolation_after_context:
  assumes fid: "function_id b = Some f" "f \<noteq> []"
      and cod: "code b = Some c" "c \<noteq> []"
      and fnm: "function_name b = Some n" "n \<noteq> []"
      and its: "items b = Some its"
      and cap: "1 \<le> or_default (max_containers b) 10"
      and ctx: "\<forall>i < length its. \<exists>ctx.
                  createCodeContext (call env i) (f @ ''-'' @ take 8 (randomUUID (call env i)))
                    = Inr ctx"
  shows "\<exists>r tr. handleExecuteBatch env (Some b) = Some (\<lparr>status = 200, body = Batch r\<rparr>, tr) \<and>
           length (results r) = length its \<and>
           (\<forall>i < length its.
              fst (executeItem (call env i) f c n (its ! i) (or_default (timeout b) 300))
                = Inr (results r ! i) \<and>
              (\<exists>ctx. RunCode (f @ ''-'' @ take 8 (randomUUID (call env i)))
                        (item_script c n (its ! i)) ctx (or_default (timeout b) 300 * 1000)
                      \<in> set tr))"
proof -
  let ?t = "or_default (timeout b) 300"
  let ?sid = "\<lambda>i. f @ ''-'' @ take 8 (randomUUID (call env i))"
  have tr: "truthy (function_id b)" "truthy (code b)" "truthy (function_name b)"
    using fid cod fnm by (simp_all add: truthy_def)
  have all: "\<exists>out. fst (executeItem (call env i) (the (function_id b)) (the (code b))
                (the (function_name b)) (its ! i) ?t) = Inr out" if "i < length its" for i
  proof -
    from ctx that obtain cx where "createCodeContext (call env i) (?sid i) = Inr cx" by blast
    from executeItem_fulfils[OF this] show ?thesis using fid cod fnm by simp
  qed
  from handleExecuteBatch_fulfilled[OF tr its cap all]
  obtain r where h: "handleExecuteBatch env (Some b) =
      Some (\<lparr>status = 200, body = Batch r\<rparr>,
            concat (map (\<lambda>(j, item). snd (executeItem (call env j) f c n item ?t))
                        (enumerate 0 its)))"
    using fid cod fnm by auto
  let ?tr = "concat (map (\<lambda>(j, item). snd (executeItem (call env j) f c n item ?t))
                        (enumerate 0 its))"
  obtain batches where ch: "chunk its (or_default (max_containers b) 10) = Some batches"
    using chunk_closed[OF cap] by blast
  have cc: "concat batches = its" by (rule chunk_concat[OF cap ch])
  have "fst (run_batches (call env) f c n ?t batches 0 [] []) = Inr (results r)"
    using handleExecuteBatch_batch_body(2)[OF tr its ch h] fid cod fnm by simp
  note al = batch_results_aligned[OF this cc]
  have run: "\<exists>cx. RunCode (?sid i) (item_script c n (its ! i)) cx (?t * 1000) \<in> set ?tr"
    if "i < length its" for i
  proof -
    from ctx that obtain cx where cx: "createCodeContext (call env i) (?sid i) = Inr cx" by blast
    have "(i, its ! i) \<in> set (enumerate 0 its)"
      using that by (simp add: in_set_enumerate_eq)
    moreover have "RunCode (?sid i) (item_script c n (its ! i)) cx (?t * 1000)
        \<in> set (snd (executeItem (call env i) f c n (its ! i) ?t))"
      unfolding executeItem_trace[OF cx] by simp
    ultimately have "RunCode (?sid i) (item_script c n (its ! i)) cx (?t * 1000) \<in> set ?tr"
      by fastforce
    then show ?thesis by blast
  qed
  show ?thesis using h al run by blast
qed

lemma batch_isolation_after_context_sample:
  "\<exists>r tr. handleExecuteBatch mixed_env (Some mixed_request)
             = Some (\<lparr>status = 200, body = Batch r\<rparr>, tr) \<and>
          map success (results r) = [False, False, False, False, True] \<and>
          map error (results r) =
            [Some ''Execution timed out'', Some ''bad'',
             Some ''Failed to extract result from output'', Some ''sandbox unreachable'', None] \<and>
          length (filter (\<lambda>e. case e of RunCode s x y z \<Rightarrow> True | _ \<Rightarrow> False) tr) = 5"
proof -
  let ?its = "[''8001'', ''8002'', ''8003'', ''8004'', ''8005'']"
  let ?c = "''def double(x): return 2 * x''"
  have hyps: "function_id mixed_request = Some ''double''" "''double'' \<noteq> []"
    "code mixed_request = Some ?c" "?c \<noteq> []"
    "function_name mixed_request = Some ''double''" "''double'' \<noteq> []"
    "items mixed_request = Some ?its"
    "1 \<le> or_default (max_containers mixed_request) 10"
    by (simp_all add: mixed_request_def or_default_def)
  have ctx: "\<forall>i < length ?its. \<exists>ctx.
      createCodeContext (call mixed_env i) (''double'' @ ''-'' @ take 8 (randomUUID (call mixed_env i)))
        = Inr ctx"
    by (simp add: mixed_env_def mixed_call_def sample_session_def)
  from batch_isolation_after_context[OF hyps ctx]
  obtain r tr where
    h: "handleExecuteBatch mixed_env (Some mixed_request)
          = Some (\<lparr>status = 200, body = Batch r\<rparr>, tr)"
    by blast
  have "map_option (\<lambda>(resp, tr). case body resp of Batch r \<Rightarrow> map success (results r) | Single x \<Rightarrow> [])
          (handleExecuteBatch mixed_env (Some mixed_request))
        = Some [False, False, False, False, True]"
    by code_simp
  with h have s: "map success (results r) = [False, False, False, False, True]" by simp
  have "map_option (\<lambda>(resp, tr). case body resp of Batch r \<Rightarrow> map error (results r) | Single x \<Rightarrow> [])
          (handleExecuteBatch mixed_env (Some mixed_request))
        = Some [Some ''Execution timed out'', Some ''bad'',
             Some ''Failed to extract result from output'', Some ''sandbox unreachable'', None]"
    by code_simp
  with h have e: "map error (results r) =
            [Some ''Execution timed out'', Some ''bad'',
             Some ''Failed to extract result from output'', Some ''sandbox unreachable'', None]"
    by simp
  have "map_option (\<lambda>(resp, tr).
            length (filter (\<lambda>e. case e of RunCode s x y z \<Rightarrow> True | _ \<Rightarrow> False) tr))
          (handleExecuteBatch mixed_env (Some mixed_request)) = Some 5"
    by code_simp
  with h have t: "length (filter (\<lambda>e. case e of RunCode s x y z \<Rightarrow> True | _ \<Rightarrow> False) tr) = 5"
    by simp
  show ?thesis by (intro exI[of _ r] exI[of _ tr] conjI h s e t)
qed

section \<open>Session identifiers\<close>

text \<open>
  C8. The claim: no two items of a batch share a session identifier, for every sequence of
  random values. The code names an item's sandbox by the function identifier, a dash and
  the first eight characters of the item's \<open>crypto.randomUUID()\<close> (under the comment
  "Create unique sandbox ID for this execution"). In a batch response (effective cap at
  least 1) the i-th outcome carries the identifier made from the i-th draw, so two items
  share a sandbox exactly when their draws agree in the first eight characters. At two
  different UUIDs with the same first eight characters both items run in, and both destroy,
  the sandbox \<open>double-0a1b2c3d\<close>.
\<close>

theorem session_ids:
  assumes fid: "function_id b = Some f" "f \<noteq> []"
      and cod: "code b = Some c" "c \<noteq> []"
      and fnm: "function_name b = Some n" "n \<noteq> []"
      and its: "items b = Some its"
      and cap: "1 \<le> or_default (max_containers b) 10"
      and h: "handleExecuteBatch env (Some b) = Some (resp, tr)"
      and r: "body resp = Batch r"
  shows "length (results r) = length its \<and>
         (\<forall>i < length its.
            sandbox_id (results r ! i) = Some (f @ ''-'' @ take 8 (randomUUID (call env i)))) \<and>
         (\<forall>i < length its. \<forall>j < length its.
            sandbox_id (results r ! i) = sandbox_id (results r ! j) \<longleftrightarrow>
            take 8 (randomUUID (call env i)) = take 8 (randomUUID (call env j)))"
proof -
  have tr: "truthy (function_id b)" "truthy (code b)" "truthy (function_name b)"
    using fid cod fnm by (simp_all add: truthy_def)
  obtain batches where ch: "chunk its (or_default (max_containers b) 10) = Some batches"
    using chunk_closed[OF cap] by blast
  have cc: "concat batches = its" by (rule chunk_concat[OF cap ch])
  have "fst (run_batches (call env) f c n (or_default (timeout b) 300) batches 0 [] [])
          = Inr (results r)"
    using handleExecuteBatch_batch_body(2)[OF tr its ch h r] fid cod fnm by simp
  note al = batch_results_aligned[OF this cc]
  have ids: "sandbox_id (results r ! i) = Some (f @ ''-'' @ take 8 (randomUUID (call env i)))"
    if "i < length its" for i
    using executeItem_sandbox_id[OF al(2)[OF that]] .
  show ?thesis using al(1) ids by simp
qed

theorem session_ids_collision:
  "randomUUID (call colliding_env 0) \<noteq> randomUUID (call colliding_env 1) \<and>
   (\<exists>r tr. handleExecuteBatch colliding_env (Some colliding_request)
              = Some (\<lparr>status = 200, body = Batch r\<rparr>, tr) \<and>
            sandbox_id (results r ! 0) = Some ''double-0a1b2c3d'' \<and>
            sandbox_id (results r ! 1) = sandbox_id (results r ! 0) \<and>
            run_ids tr = [''double-0a1b2c3d'', ''double-0a1b2c3d''] \<and>
            destroyed_ids tr = [''double-0a1b2c3d'', ''double-0a1b2c3d''])"
proof -
  let ?its = "[''8001'', ''8002'']"
  let ?c = "''def double(x): return 2 * x''"
  have ne: "randomUUID (call colliding_env 0) \<noteq> randomUUID (call colliding_env 1)"
    by (simp add: colliding_env_def sample_session_def)
  have hyps: "function_id colliding_request = Some ''double''" "''double'' \<noteq> []"
    "code colliding_request = Some ?c" "?c \<noteq> []"
    "function_name colliding_request = Some ''double''" "''double'' \<noteq> []"
    "items colliding_request = Some ?its"
    "1 \<le> or_default (max_containers colliding_request) 10"
    by (simp_all add: colliding_request_def or_default_def)
  have ctx: "\<forall>i < length ?its. \<exists>ctx.
      createCodeContext (call colliding_env i)
        (''double'' @ ''-'' @ take 8 (randomUUID (call colliding_env i))) = Inr ctx"
    by (simp add: colliding_env_def sample_session_def)
  from handleExecuteBatch_exists[OF hyps ctx] obtain r tr where
    h: "handleExecuteBatch colliding_env (Some colliding_request)
          = Some (\<lparr>status = 200, body = Batch r\<rparr>, tr)"
    by blast
  have b: "body \<lparr>status = 200, body = Batch r\<rparr> = Batch r" by simp
  from session_ids[OF hyps h b] have
    ids: "\<And>i. i < 2 \<Longrightarrow> sandbox_id (results r ! i)
                = Some (''double'' @ ''-'' @ take 8 (randomUUID (call colliding_env i)))"
    and same: "\<And>i j. i < 2 \<Longrightarrow> j < 2 \<Longrightarrow>
          (sandbox_id (results r ! i) = sandbox_id (results r ! j)) =
          (take 8 (randomUUID (call colliding_env i)) = take 8 (randomUUID (call colliding_env j)))"
    by simp_all
  have i0: "sandbox_id (results r ! 0) = Some ''double-0a1b2c3d''"
    using ids[of 0] by (simp add: colliding_env_def sample_session_def)
  have i1: "sandbox_id (results r ! 1) = sandbox_id (results r ! 0)"
    using same[of 1 0] by (simp add: colliding_env_def sample_session_def)
  have "map_option (\<lambda>(resp, tr). run_ids tr)
          (handleExecuteBatch colliding_env (Some colliding_request))
        = Some [''double-0a1b2c3d'', ''double-0a1b2c3d'']"
    by code_simp
  with h have rn: "run_ids tr = [''double-0a1b2c3d'', ''double-0a1b2c3d'']" by simp
  have "map_option (\<lambda>(resp, tr). destroyed_ids tr)
          (handleExecuteBatch colliding_env (Some colliding_request))
        = Some [''double-0a1b2c3d'', ''double-0a1b2c3d'']"
    by code_simp
  with h have ds: "destroyed_ids tr = [''double-0a1b2c3d'', ''double-0a1b2c3d'']" by simp
  have "\<exists>r tr. handleExecuteBatch colliding_env (Some colliding_request)
              = Some (\<lparr>status = 200, body = Batch r\<rparr>, tr) \<and>
            sandbox_id (results r ! 0) = Some ''double-0a1b2c3d'' \<and>
            sandbox_id (results r ! 1) = sandbox_id (results r ! 0) \<and>
            run_ids tr = [''double-0a1b2c3d'', ''double-0a1b2c3d''] \<and>
            destroyed_ids tr = [''double-0a1b2c3d'', ''double-0a1b2c3d'']"
    by (intro exI[of _ r] exI[of _ tr] conjI h i0 i1 rn ds)
  with ne show ?thesis by (rule conjI)
qed

section \<open>A cap of zero\<close>

text \<open>
  C9, as the code has it. The request validation looks at \<open>function_id\<close>, \<open>code\<close>,
  \<open>function_name\<close> and \<open>items\<close> only. A \<open>max_containers\<close> of zero is not
  rejected: \<open>body.max_containers || 10\<close> takes zero for a missing value, so the request
  is handled exactly as with \<open>max_containers = 10\<close>; the handler returns, never with
  status 400, and a batch response reports the cap 10 and \<open>\<lceil>N / 10\<rceil>\<close> rounds. (A
  negative cap is a different matter, see \<open>negative_cap_does_not_return\<close>; this
  statement says nothing about it.)
\<close>

theorem zero_cap_defaults:
  assumes fid: "function_id b = Some f" "f \<noteq> []"
      and cod: "code b = Some c" "c \<noteq> []"
      and fnm: "function_name b = Some n" "n \<noteq> []"
      and its: "items b = Some its"
      and zero: "max_containers b = Some 0"
  shows "handleExecuteBatch env (Some b)
           = handleExecuteBatch env (Some (b\<lparr>max_containers := Some 10\<rparr>)) \<and>
         (\<exists>resp tr. handleExecuteBatch env (Some b) = Some (resp, tr) \<and>
            status resp \<noteq> 400 \<and>
            (\<forall>r. body resp = Batch r \<longrightarrow>
                  ExecuteBatchResponse.max_containers r = 10 \<and>
                  int (batch_count r) = \<lceil>real (length its) / 10\<rceil>))"
proof -
  have same: "handleExecuteBatch env (Some b)
           = handleExecuteBatch env (Some (b\<lparr>max_containers := Some 10\<rparr>))"
    using zero by (simp add: handleExecuteBatch_def or_default_def cong: option.case_cong)
  have cap: "(10::int) = or_default (max_containers b) 10" "(1::int) \<le> 10"
    using zero by (simp_all add: or_default_def)
  have tr: "truthy (function_id b)" "truthy (code b)" "truthy (function_name b)"
    using fid cod fnm by (simp_all add: truthy_def)
  obtain batches where ch: "chunk its (or_default (max_containers b) 10) = Some batches"
    using chunk_closed[OF cap(2), of its] cap(1) by auto
  have len: "int (length batches) = \<lceil>real (length its) / 10\<rceil>"
    using chunk_rounds(1)[OF cap(2), of its batches] ch cap(1)
      rounds_ceiling[OF cap(2), of "length its"] by simp
  note disp = handleExecuteBatch_dispatch[OF tr its ch, of env]
  have "\<exists>x. handleExecuteBatch env (Some b) = Some x"
    unfolding disp by simp
  then obtain resp tr where h: "handleExecuteBatch env (Some b) = Some (resp, tr)"
    by force
  have st: "status resp \<noteq> 400"
    using h unfolding disp by (auto simp: error_response_def split: prod.splits sum.splits)
  have rep: "ExecuteBatchResponse.max_containers r = 10 \<and>
             int (batch_count r) = \<lceil>real (length its) / 10\<rceil>" if "body resp = Batch r" for r
    using handleExecuteBatch_batch_body(3,4)[OF tr its ch h that] len cap(1) by simp
  show ?thesis using same h st rep by blast
qed

theorem zero_cap_defaults_witness:
  "handleExecuteBatch fixture_env (Some zero_cap_request)
     = handleExecuteBatch fixture_env (Some (zero_cap_request\<lparr>max_containers := Some 10\<rparr>)) \<and>
   (\<exists>resp tr. handleExecuteBatch fixture_env (Some zero_cap_request) = Some (resp, tr) \<and>
      status resp = 200)"
proof -
  let ?its = "[''8001'', ''8002'', ''8003'']"
  let ?c = "''def double(x): return 2 * x''"
  have hyps: "function_id zero_cap_request = Some ''double''" "''double'' \<noteq> []"
    "code zero_cap_request = Some ?c" "?c \<noteq> []"
    "function_name zero_cap_request = Some ''double''" "''double'' \<noteq> []"
    "items zero_cap_request = Some ?its"
    "max_containers zero_cap_request = Some 0"
    by (simp_all add: zero_cap_request_def fixture_request_def)
  from zero_cap_defaults[OF hyps, of fixture_env] obtain resp tr where
    same: "handleExecuteBatch fixture_env (Some zero_cap_request)
     = handleExecuteBatch fixture_env (Some (zero_cap_request\<lparr>max_containers := Some 10\<rparr>))"
    and h: "handleExecuteBatch fixture_env (Some zero_cap_request) = Some (resp, tr)"
    by blast
  have "map_option (\<lambda>(resp, tr). status resp)
          (handleExecuteBatch fixture_env (Some zero_cap_request)) = Some 200"
    by code_simp
  with h have "status resp = 200" by simp
  with same h show ?thesis by blast
qed

text \<open>
  The claim as stated fails: the sample batch with \<open>max_containers = 0\<close> is answered
  with status 200, all three items are run (one round, reported cap 10).
\<close>

theorem zero_cap_counterexample:
  "max_containers zero_cap_request = Some 0 \<and>
   map_option
     (\<lambda>(resp, tr). (status resp,
        case body resp of
          Batch r \<Rightarrow> (map success (results r), batch_count r,
                      ExecuteBatchResponse.max_containers r)
        | Single x \<Rightarrow> ([], 0, 0),
        length (filter (\<lambda>e. case e of RunCode s x y z \<Rightarrow> True | _ \<Rightarrow> False) tr)))
     (handleExecuteBatch fixture_env (Some zero_cap_request))
   = Some (200, ([True, False, True], 1, 10), 3)"
proof
  show "max_containers zero_cap_request = Some 0"
    by (simp add: zero_cap_request_def)
  show "map_option
     (\<lambda>(resp, tr). (status resp,
        case body resp of
          Batch r \<Rightarrow> (map success (results r), batch_count r,
                      ExecuteBatchResponse.max_containers r)
        | Single x \<Rightarrow> ([], 0, 0),
        length (filter (\<lambda>e. case e of RunCode s x y z \<Rightarrow> True | _ \<Rightarrow> False) tr)))
     (handleExecuteBatch fixture_env (Some zero_cap_request))
   = Some (200, ([True, False, True], 1, 10), 3)"
    by code_simp
qed

section \<open>A code context that cannot be created\<close>

text \<open>
  C4. The claim: \<open>executeItem\<close> never raises; every failure, that of context creation
  included, becomes an outcome with \<open>success: false\<close>. The code awaits
  \<open>createCodeContext\<close> before its \<open>try\<close>: on a session whose
  \<open>createCodeContext\<close> rejects, the promise of \<open>executeItem\<close> rejects with that
  error and there is no outcome. (Once the context exists the claim holds:
  \<open>executeItem_outcome_after_context\<close>. \<open>handleExecute\<close> creates the context inside
  its \<open>try\<close>.)
\<close>

theorem executeItem_raises:
  "fst (executeItem unreachable_session ''double'' ''def double(x): return 2 * x''
          ''double'' ''8001'' 300) = Inl (Error ''container failed to start'')"
  by (simp add: unreachable_session_def sample_session_def executeItem_def Let_def)

text \<open>
  C5. The claim: exactly one \<open>destroy\<close> call is issued for every per-item session, on
  every path, an exception anywhere in the item's processing included. The \<open>finally\<close>
  block belongs to the \<open>try\<close> that starts after \<open>createCodeContext\<close>: on a
  session whose \<open>createCodeContext\<close> rejects, the only call issued is
  \<open>createCodeContext\<close> and the sandbox is never destroyed. (Once the context exists
  the claim holds: \<open>executeItem_destroys_once\<close>.)
\<close>

theorem executeItem_leaves_sandbox:
  "snd (executeItem unreachable_session ''double'' ''def double(x): return 2 * x''
          ''double'' ''8001'' 300) = [CreateCodeContext ''double-0a1b2c3d'']"
  by (simp add: unreachable_session_def sample_session_def executeItem_def Let_def)

end
